theory Spec2Isabelle
  imports Main "HOL-Library.Multiset"
begin

section \<open>Data model (backend/src/types/index.ts, backend/src/database/connection.ts)\<close>

text \<open>
  Flight date-times are stored as ISO-8601 UTC strings of fixed width
  (\<^verbatim>\<open>toISOString\<close> in the seed). Such a string is represented by the number of
  milliseconds since the epoch that \<^verbatim>\<open>new Date(s).getTime()\<close> yields; the text
  order that SQLite uses in \<^verbatim>\<open>ORDER BY\<close> and \<^verbatim>\<open>>=\<close> is the order of these numbers,
  and \<^verbatim>\<open>DATE(s)\<close> is the UTC calendar day, here the day number since the epoch.
  The bookkeeping columns \<^verbatim>\<open>created_at\<close>/\<^verbatim>\<open>updated_at\<close> of airlines and flights
  are read by no query of the core and are left out. The \<^verbatim>\<open>id\<close> column of each table
  is \<open>a_id\<close>, \<open>f_id\<close>, \<open>b_id\<close>, \<open>e_id\<close>; the \<^verbatim>\<open>notes\<close> column is \<open>e_notes\<close>; the
  event types carry the prefix \<open>EV\<close>, since the statuses have the same names.
\<close>

type_synonym millis = int
type_synonym day = int

record airline =
  a_id :: int
  code :: string
  name :: string

record flight =
  f_id :: int
  flight_number :: string
  airline_id :: int
  airline_name :: "string option"
  airline_code :: "string option"
  origin :: string
  destination :: string
  departure_datetime :: millis
  arrival_datetime :: millis

datatype BookingStatus = BOOKED | DEPARTED | ARRIVED | DELIVERED | CANCELLED

datatype TimelineEventType =
  EV_CREATED | EV_DEPARTED | EV_ARRIVED | EV_DELIVERED | EV_CANCELLED

text \<open>
  \<^verbatim>\<open>CURRENT_TIMESTAMP\<close> values (\<^verbatim>\<open>created_at\<close>, \<^verbatim>\<open>updated_at\<close>) are seconds since the
  epoch. The itinerary column \<^verbatim>\<open>flight_ids\<close> is nullable JSON text.
\<close>

record booking =
  b_id :: int
  ref_id :: string
  user_id :: int
  origin :: string
  destination :: string
  pieces :: int
  weight_kg :: int
  status :: BookingStatus
  flight_ids :: "string option"
  created_at :: nat
  updated_at :: nat

record timeline_event =
  e_id :: int
  booking_id :: int
  event_type :: TimelineEventType
  location :: "string option"
  flight_info :: "string option"
  e_notes :: "string option"
  created_at :: nat

text \<open>
  The store: one list per table, in rowid order, the two \<^verbatim>\<open>AUTOINCREMENT\<close> sequences,
  and the \<^verbatim>\<open>booking_counters\<close> table as an association list keyed by \<^verbatim>\<open>date_key\<close>.
\<close>

record db =
  airlines :: "airline list"
  flights :: "flight list"
  users :: "int list"
  bookings :: "booking list"
  timeline_events :: "timeline_event list"
  booking_counters :: "(string \<times> int) list"
  seq_bookings :: int
  seq_timeline_events :: int

text \<open>
  The values of a JSON text, as \<^verbatim>\<open>JSON.parse\<close> and the body parser of the server
  return them. Numbers are integers here; a fractional number is truthy and no array,
  as a non-zero integer is.
\<close>

datatype json =
  JNull
| JBool bool
| JNum int
| JStr string
| JArr "json list"
| JObj "(string \<times> json) list"

text \<open>The key constraints of the schema (\<^verbatim>\<open>PRIMARY KEY\<close>, \<^verbatim>\<open>UNIQUE\<close>).\<close>

definition wf_db :: "db \<Rightarrow> bool" where
  "wf_db d \<longleftrightarrow>
     distinct (map a_id (airlines d)) \<and>
     distinct (map f_id (flights d)) \<and>
     distinct (map b_id (bookings d)) \<and>
     distinct (map ref_id (bookings d)) \<and>
     distinct (map fst (booking_counters d))"

section \<open>Route finder (backend/src/services/RouteService.ts)\<close>

text \<open>
  \<^verbatim>\<open>SELECT f.*, a.name as airline_name, a.code as airline_code FROM flights f
  JOIN airlines a ON f.airline_id = a.id WHERE ... ORDER BY f.departure_datetime ASC\<close>:
  the rows of the inner join that satisfy the condition, sorted by departure; rows of
  equal departure stay in rowid order.
\<close>

definition join_airline :: "airline list \<Rightarrow> flight \<Rightarrow> flight list" where
  "join_airline als f =
     map (\<lambda>a. f\<lparr>airline_name := Some (name a), airline_code := Some (code a)\<rparr>)
       (filter (\<lambda>a. airline_id f = a_id a) als)"

definition select_flights :: "db \<Rightarrow> (flight \<Rightarrow> bool) \<Rightarrow> flight list" where
  "select_flights d cond =
     sort_key departure_datetime
       (concat (map (join_airline (airlines d)) (filter cond (flights d))))"

definition getFlightDetails :: "db \<Rightarrow> int list \<Rightarrow> flight list" where
  "getFlightDetails d flightIds =
     (if flightIds = [] then []
      else select_flights d (\<lambda>f. f_id f \<in> set flightIds))"

datatype validation_error =
  NoFlightsProvided
| SomeFlightsNotFound
| RouteBreak string string
| InsufficientConnection
| ConnectionTooLong

fun error_text :: "validation_error \<Rightarrow> string" where
  "error_text NoFlightsProvided = ''No flights provided''"
| "error_text SomeFlightsNotFound = ''Some flights not found''"
| "error_text (RouteBreak x y) = ''Route break: '' @ x @ '' != '' @ y"
| "error_text InsufficientConnection = ''Insufficient connection time between flights''"
| "error_text ConnectionTooLong = ''Connection time too long between flights''"

datatype validation = Valid | Invalid validation_error

definition minimumConnectionTime :: millis where
  "minimumConnectionTime = 2 * 60 * 60 * 1000"

definition maxConnectionTime :: millis where
  "maxConnectionTime = 24 * 60 * 60 * 1000"

text \<open>The loop over \<^verbatim>\<open>i = 0 .. flights.length - 2\<close> with its three early returns.\<close>

fun check_sequence :: "flight list \<Rightarrow> validation" where
  "check_sequence (currentFlight # nextFlight # rest) =
     (if flight.destination currentFlight \<noteq> flight.origin nextFlight
      then Invalid (RouteBreak (flight.destination currentFlight) (flight.origin nextFlight))
      else
        let connectionTime = departure_datetime nextFlight - arrival_datetime currentFlight
        in if connectionTime < minimumConnectionTime then Invalid InsufficientConnection
           else if connectionTime > maxConnectionTime then Invalid ConnectionTooLong
           else check_sequence (nextFlight # rest))"
| "check_sequence _ = Valid"

definition validateFlightSequence :: "db \<Rightarrow> int list \<Rightarrow> validation" where
  "validateFlightSequence d flightIds =
     (if flightIds = [] then Invalid NoFlightsProvided
      else
        let flights = getFlightDetails d flightIds
        in if length flights \<noteq> length flightIds then Invalid SomeFlightsNotFound
           else check_sequence (sort_key departure_datetime flights))"

subsection \<open>Route search\<close>

definition DATE :: "millis \<Rightarrow> day" where
  "DATE t = t div (24 * 60 * 60 * 1000)"

definition findDirectFlights :: "db \<Rightarrow> string \<Rightarrow> string \<Rightarrow> day \<Rightarrow> flight list" where
  "findDirectFlights d orig dest departure_date =
     select_flights d (\<lambda>f. flight.origin f = orig \<and> flight.destination f = dest \<and>
                           DATE (departure_datetime f) = departure_date)"

record transit_route =
  first_flight :: flight
  second_flight :: flight

text \<open>
  \<^verbatim>\<open>findTransitRoutes\<close> in its parts: the query of the first legs
  (\<open>firstLegFlights\<close>); for one first leg, the query of the loop body with its
  \<^verbatim>\<open>LIMIT 5\<close> (\<open>secondLegFlights\<close>) and the inner loop that keeps the pairs within the
  connection window (\<open>routesFor\<close>); then the sort and the slice.
\<close>

definition firstLegFlights :: "db \<Rightarrow> string \<Rightarrow> string \<Rightarrow> day \<Rightarrow> flight list" where
  "firstLegFlights d orig dest departure_date =
     select_flights d (\<lambda>f. flight.origin f = orig \<and> DATE (departure_datetime f) = departure_date \<and>
                           flight.destination f \<noteq> dest)"

definition secondLegFlights :: "db \<Rightarrow> string \<Rightarrow> flight \<Rightarrow> flight list" where
  "secondLegFlights d dest firstFlight =
     (let transitHub = flight.destination firstFlight;
          firstFlightArrival = arrival_datetime firstFlight;
          sameDay = DATE firstFlightArrival;
          nextDay = DATE (firstFlightArrival + 24 * 60 * 60 * 1000);
          earliestDeparture = firstFlightArrival + minimumConnectionTime
      in take 5 (select_flights d
           (\<lambda>f. flight.origin f = transitHub \<and> flight.destination f = dest \<and>
                (DATE (departure_datetime f) = sameDay \<or> DATE (departure_datetime f) = nextDay) \<and>
                departure_datetime f \<ge> earliestDeparture)))"

definition connectionTime :: "flight \<Rightarrow> flight \<Rightarrow> millis" where
  "connectionTime firstFlight secondFlight =
     departure_datetime secondFlight - arrival_datetime firstFlight"

definition routesFor :: "db \<Rightarrow> string \<Rightarrow> flight \<Rightarrow> transit_route list" where
  "routesFor d dest firstFlight =
     map (\<lambda>secondFlight. \<lparr>first_flight = firstFlight, second_flight = secondFlight\<rparr>)
       (filter (\<lambda>secondFlight.
            connectionTime firstFlight secondFlight \<ge> minimumConnectionTime \<and>
            connectionTime firstFlight secondFlight \<le> 24 * 60 * 60 * 1000)
          (secondLegFlights d dest firstFlight))"

definition totalTime :: "transit_route \<Rightarrow> millis" where
  "totalTime r = arrival_datetime (second_flight r) - departure_datetime (first_flight r)"

definition findTransitRoutes :: "db \<Rightarrow> string \<Rightarrow> string \<Rightarrow> day \<Rightarrow> transit_route list" where
  "findTransitRoutes d orig dest departure_date =
     (let transitRoutes =
            concat (map (routesFor d dest) (firstLegFlights d orig dest departure_date))
      in take 10 (sort_key totalTime transitRoutes))"

definition findRoutes ::
    "db \<Rightarrow> string \<Rightarrow> string \<Rightarrow> day \<Rightarrow> flight list \<times> transit_route list" where
  "findRoutes d orig dest departure_date =
     (findDirectFlights d orig dest departure_date,
      findTransitRoutes d orig dest departure_date)"

section \<open>Booking model (backend/src/models/Booking.ts)\<close>

subsection \<open>Strings of numbers, as \<^verbatim>\<open>String(n)\<close>, \<^verbatim>\<open>padStart\<close> and \<^verbatim>\<open>JSON.stringify\<close> build them\<close>

definition digit_char :: "nat \<Rightarrow> char" where
  "digit_char n = ''0123456789'' ! (n mod 10)"

fun string_of_nat :: "nat \<Rightarrow> string" where
  "string_of_nat n =
     (if n < 10 then [digit_char n] else string_of_nat (n div 10) @ [digit_char (n mod 10)])"

declare string_of_nat.simps [simp del]

definition string_of_int :: "int \<Rightarrow> string" where
  "string_of_int i = (if i < 0 then ''-'' @ string_of_nat (nat (- i)) else string_of_nat (nat i))"

definition padStart :: "nat \<Rightarrow> char \<Rightarrow> string \<Rightarrow> string" where
  "padStart targetLength c s = replicate (targetLength - length s) c @ s"

fun join_comma :: "string list \<Rightarrow> string" where
  "join_comma [] = []"
| "join_comma [x] = x"
| "join_comma (x # y # ys) = x @ '','' @ join_comma (y # ys)"

definition JSON_stringify :: "int list \<Rightarrow> string" where
  "JSON_stringify ids = ''['' @ join_comma (map string_of_int ids) @ '']''"

subsection \<open>Instants, as \<^verbatim>\<open>new Date()\<close> and \<^verbatim>\<open>toISOString\<close> give them\<close>

text \<open>
  A \<^verbatim>\<open>Date\<close> is given by its fields in UTC: the year, the month counted from 1, the day
  of the month and the time of the day. \<^verbatim>\<open>toISOString\<close> writes them as
  \<^verbatim>\<open>YYYY-MM-DDTHH:mm:ss.sssZ\<close>, where a year outside 0 to 9999 takes a sign and six
  digits.
\<close>

record Date =
  utc_year :: int
  utc_month :: nat
  utc_day :: nat
  utc_hours :: nat
  utc_minutes :: nat
  utc_seconds :: nat
  utc_ms :: nat

definition leap_year :: "int \<Rightarrow> bool" where
  "leap_year y \<longleftrightarrow> y mod 4 = 0 \<and> (y mod 100 \<noteq> 0 \<or> y mod 400 = 0)"

definition days_in_month :: "int \<Rightarrow> nat \<Rightarrow> nat" where
  "days_in_month y m =
     (if m = 2 then (if leap_year y then 29 else 28)
      else if m = 4 \<or> m = 6 \<or> m = 9 \<or> m = 11 then 30 else 31)"

text \<open>The fields of an instant: a day of the calendar and a time of that day.\<close>

definition is_instant :: "Date \<Rightarrow> bool" where
  "is_instant t \<longleftrightarrow>
     1 \<le> utc_month t \<and> utc_month t \<le> 12 \<and>
     1 \<le> utc_day t \<and> utc_day t \<le> days_in_month (utc_year t) (utc_month t) \<and>
     utc_hours t < 24 \<and> utc_minutes t < 60 \<and> utc_seconds t < 60 \<and> utc_ms t < 1000"

definition pad_num :: "nat \<Rightarrow> nat \<Rightarrow> string" where
  "pad_num w n = padStart w (CHR ''0'') (string_of_nat n)"

definition toISOString :: "Date \<Rightarrow> string" where
  "toISOString t =
     (let y = utc_year t;
          yyyy = (if 0 \<le> y \<and> y \<le> 9999 then pad_num 4 (nat y)
                  else (if y < 0 then ''-'' else ''+'') @ pad_num 6 (nat \<bar>y\<bar>))
      in yyyy @ ''-'' @ pad_num 2 (utc_month t) @ ''-'' @ pad_num 2 (utc_day t) @ ''T'' @
         pad_num 2 (utc_hours t) @ '':'' @ pad_num 2 (utc_minutes t) @ '':'' @
         pad_num 2 (utc_seconds t) @ ''.'' @ pad_num 3 (utc_ms t) @ ''Z'')"

subsection \<open>Reference ids\<close>

datatype error =
  FailedToGenerateReferenceId
| ConstraintViolation
| FailedToCreateBooking

text \<open>
  \<^verbatim>\<open>generateRefId\<close> awaits two statements: the \<^verbatim>\<open>SELECT\<close> of the day's row, then
  an \<^verbatim>\<open>INSERT\<close> or an \<^verbatim>\<open>UPDATE\<close> chosen from what was read. They are two functions
  here, so that the statements of two calls can be interleaved; a call on its own
  runs one after the other. The argument \<open>today\<close> is \<^verbatim>\<open>new Date().toISOString()\<close>.
\<close>

definition dateKey_of :: "string \<Rightarrow> string" where
  "dateKey_of today = takeWhile (\<lambda>c. c \<noteq> CHR ''T'') today"

definition format_ref_id :: "string \<Rightarrow> int \<Rightarrow> string" where
  "format_ref_id dateKey counter =
     (let formattedDate = filter (\<lambda>c. c \<noteq> CHR ''-'') dateKey;
          paddedCounter = padStart 4 (CHR ''0'') (string_of_int counter)
      in ''AC-'' @ formattedDate @ ''-'' @ paddedCounter)"

definition select_counter :: "string \<Rightarrow> db \<Rightarrow> int option" where
  "select_counter dateKey d = map_of (booking_counters d) dateKey"

definition write_counter :: "string \<Rightarrow> int option \<Rightarrow> db \<Rightarrow> (error + string) \<times> db" where
  "write_counter dateKey counter d =
     (case counter of
        None \<Rightarrow>
          if dateKey \<in> fst ` set (booking_counters d)
          then (Inl FailedToGenerateReferenceId, d)
          else (Inr (format_ref_id dateKey 1),
                d\<lparr>booking_counters := booking_counters d @ [(dateKey, 1)]\<rparr>)
      | Some c \<Rightarrow>
          (Inr (format_ref_id dateKey (c + 1)),
           d\<lparr>booking_counters :=
               map (\<lambda>(k, v). if k = dateKey then (k, v + 1) else (k, v)) (booking_counters d)\<rparr>))"

definition generateRefId :: "string \<Rightarrow> db \<Rightarrow> (error + string) \<times> db" where
  "generateRefId today d =
     (let dateKey = dateKey_of today
      in write_counter dateKey (select_counter dateKey d) d)"

subsection \<open>Rows and statements\<close>

text \<open>
  The argument \<open>now\<close> of an operation is the value of \<^verbatim>\<open>CURRENT_TIMESTAMP\<close> while its
  statements run.
\<close>

definition findByRefId :: "db \<Rightarrow> string \<Rightarrow> booking option" where
  "findByRefId d r = find (\<lambda>b. ref_id b = r) (bookings d)"

text \<open>
  \<^verbatim>\<open>INSERT INTO bookings\<close>: refused when \<^verbatim>\<open>ref_id\<close> is taken, a \<^verbatim>\<open>CHECK\<close> fails or
  the user is unknown; the row gets the next \<^verbatim>\<open>AUTOINCREMENT\<close> id.
\<close>

definition insert_booking :: "booking \<Rightarrow> db \<Rightarrow> (int \<times> db) option" where
  "insert_booking row d =
     (if ref_id row \<in> ref_id ` set (bookings d) \<or> booking.pieces row \<le> 0 \<or>
         booking.weight_kg row \<le> 0 \<or> user_id row \<notin> set (users d)
      then None
      else
        let lastID = seq_bookings d + 1
        in Some (lastID,
                 d\<lparr>bookings := bookings d @ [row\<lparr>b_id := lastID\<rparr>],
                   seq_bookings := lastID\<rparr>))"

text \<open>
  \<^verbatim>\<open>INSERT INTO timeline_events\<close>; each caller passes the id of a booking row it has
  just written or read, so the foreign key holds.
\<close>

definition insert_timeline_event ::
    "int \<Rightarrow> TimelineEventType \<Rightarrow> string option \<Rightarrow> string option \<Rightarrow> string option \<Rightarrow> nat
      \<Rightarrow> db \<Rightarrow> db" where
  "insert_timeline_event bid ty loc info nts now d =
     (let lastID = seq_timeline_events d + 1
      in d\<lparr>timeline_events := timeline_events d @
             [\<lparr>e_id = lastID, booking_id = bid, event_type = ty, location = loc,
               flight_info = info, e_notes = nts, timeline_event.created_at = now\<rparr>],
           seq_timeline_events := lastID\<rparr>)"

record bookingData =
  user_id :: int
  origin :: string
  destination :: string
  pieces :: int
  weight_kg :: int
  flight_ids :: "int list option"

definition create :: "bookingData \<Rightarrow> string \<Rightarrow> nat \<Rightarrow> db \<Rightarrow> (error + booking) \<times> db" where
  "create bd today now d =
     (case generateRefId today d of
        (Inl e, d1) \<Rightarrow> (Inl e, d1)
      | (Inr ref, d1) \<Rightarrow>
          let flight_ids_json = map_option JSON_stringify (bookingData.flight_ids bd);
              row = \<lparr>b_id = 0, ref_id = ref, booking.user_id = bookingData.user_id bd,
                     booking.origin = bookingData.origin bd,
                     booking.destination = bookingData.destination bd,
                     booking.pieces = bookingData.pieces bd,
                     booking.weight_kg = bookingData.weight_kg bd,
                     status = BOOKED, booking.flight_ids = flight_ids_json,
                     booking.created_at = now, updated_at = now\<rparr>
          in case insert_booking row d1 of
               None \<Rightarrow> (Inl ConstraintViolation, d1)
             | Some (bookingId, d2) \<Rightarrow>
                 let d3 = insert_timeline_event bookingId EV_CREATED
                            (Some (bookingData.origin bd)) None
                            (Some (''Booking created for '' @ string_of_int (bookingData.pieces bd)
                                   @ '' pieces, '' @ string_of_int (bookingData.weight_kg bd)
                                   @ ''kg'')) now d2
                 in case findByRefId d3 ref of
                      None \<Rightarrow> (Inl FailedToCreateBooking, d3)
                    | Some b \<Rightarrow> (Inr b, d3))"

text \<open>
  \<^verbatim>\<open>UPDATE bookings SET status = ?, updated_at = CURRENT_TIMESTAMP WHERE ref_id = ?\<close>,
  with \<^verbatim>\<open>AND status = ?\<close> when a current status is given; the result is
  \<^verbatim>\<open>changes > 0\<close>.
\<close>

definition updateStatus ::
    "string \<Rightarrow> BookingStatus \<Rightarrow> BookingStatus option \<Rightarrow> nat \<Rightarrow> db \<Rightarrow> bool \<times> db" where
  "updateStatus r newStatus currentStatus now d =
     (let hit = (\<lambda>b. ref_id b = r \<and>
                   (case currentStatus of None \<Rightarrow> True | Some s \<Rightarrow> status b = s));
          changes = length (filter hit (bookings d))
      in (changes > 0,
          d\<lparr>bookings :=
              map (\<lambda>b. if hit b then b\<lparr>status := newStatus, updated_at := now\<rparr> else b)
                (bookings d)\<rparr>))"

text \<open>
  The argument \<^verbatim>\<open>flight_info\<close> of \<^verbatim>\<open>depart\<close> and \<^verbatim>\<open>arrive\<close>. It is declared as an
  optional \<^verbatim>\<open>string\<close>, and the only callers, \<^verbatim>\<open>departBooking\<close> and \<^verbatim>\<open>arriveBooking\<close>
  of the controller, pass \<^verbatim>\<open>req.body.flight_info\<close> as the route has validated it
  against \<^verbatim>\<open>Joi.object().optional()\<close>: nothing, or an object of the JSON body. A value
  is therefore a text or an object, given by its entries.
\<close>

datatype payload = Text string | Object "(string \<times> json) list"

text \<open>
  \<^verbatim>\<open>flight_info || null\<close>: an absent payload and the empty text are falsy and become
  \<^verbatim>\<open>null\<close>; every object, also the empty one, is truthy and is kept.
\<close>

definition or_null :: "payload option \<Rightarrow> payload option" where
  "or_null v =
     (case v of
        None \<Rightarrow> None
      | Some (Text s) \<Rightarrow> if s = [] then None else Some (Text s)
      | Some (Object kvs) \<Rightarrow> Some (Object kvs))"

text \<open>
  The value is handed to the statement as it is, with no \<^verbatim>\<open>JSON.stringify\<close>. The
  driver binds a text as that text, and an object as the text of its string
  conversion, which for an object read from a JSON body is \<^verbatim>\<open>[object Object]\<close>
  whatever its entries are.
\<close>

definition bind_text :: "payload \<Rightarrow> string" where
  "bind_text v = (case v of Text s \<Rightarrow> s | Object kvs \<Rightarrow> ''[object Object]'')"

definition depart :: "string \<Rightarrow> string \<Rightarrow> payload option \<Rightarrow> nat \<Rightarrow> db \<Rightarrow> bool \<times> db" where
  "depart r loc info now d =
     (case updateStatus r DEPARTED (Some BOOKED) now d of
        (updateSuccess, d1) \<Rightarrow>
          if \<not> updateSuccess then (False, d1)
          else case findByRefId d1 r of
                 None \<Rightarrow> (False, d1)
               | Some b \<Rightarrow>
                   (True, insert_timeline_event (b_id b) EV_DEPARTED (Some loc)
                            (map_option bind_text (or_null info))
                            (Some (''Cargo departed from '' @ loc)) now d1))"

definition arrive :: "string \<Rightarrow> string \<Rightarrow> payload option \<Rightarrow> nat \<Rightarrow> db \<Rightarrow> bool \<times> db" where
  "arrive r loc info now d =
     (case updateStatus r ARRIVED (Some DEPARTED) now d of
        (updateSuccess, d1) \<Rightarrow>
          if \<not> updateSuccess then (False, d1)
          else case findByRefId d1 r of
                 None \<Rightarrow> (False, d1)
               | Some b \<Rightarrow>
                   (True, insert_timeline_event (b_id b) EV_ARRIVED (Some loc)
                            (map_option bind_text (or_null info))
                            (Some (''Cargo arrived at '' @ loc)) now d1))"

definition cancel :: "string \<Rightarrow> nat \<Rightarrow> db \<Rightarrow> bool \<times> db" where
  "cancel r now d =
     (case findByRefId d r of
        None \<Rightarrow> (False, d)
      | Some b \<Rightarrow>
          if status b = ARRIVED \<or> status b = DELIVERED then (False, d)
          else case updateStatus r CANCELLED None now d of
                 (updateSuccess, d1) \<Rightarrow>
                   if \<not> updateSuccess then (False, d1)
                   else (True, insert_timeline_event (b_id b) EV_CANCELLED None None
                                 (Some ''Booking cancelled by user'') now d1))"

section \<open>Timeline service (backend/src/services/TimelineService.ts)\<close>

text \<open>
  \<^verbatim>\<open>JSON.parse\<close> is an argument of the functions below (\<open>None\<close> stands for the
  \<^verbatim>\<open>SyntaxError\<close> it throws), so that every result holds for the parser of the
  runtime.
\<close>

type_synonym json_parser = "string \<Rightarrow> json option"

text \<open>
  \<^verbatim>\<open>RouteService.getFlightDetails\<close> applied to a parsed value of any shape: a falsy
  value or one whose \<^verbatim>\<open>length\<close> is 0 gives no flights; the elements of an array are
  bound to the placeholders of the query; anything else has no \<^verbatim>\<open>map\<close> method and
  raises a \<^verbatim>\<open>TypeError\<close>, here \<open>None\<close>. The comparison of a bound element with a flight
  id is modelled for integer elements; an element of another kind is taken to equal no
  id (the conversions that SQLite applies to text are not modelled).
\<close>

fun getFlightDetails_js :: "db \<Rightarrow> json \<Rightarrow> flight list option" where
  "getFlightDetails_js d (JArr xs) =
     Some (if xs = [] then [] else select_flights d (\<lambda>f. JNum (f_id f) \<in> set xs))"
| "getFlightDetails_js d (JObj kvs) =
     (if map_of (rev kvs) ''length'' = Some (JNum 0) then Some [] else None)"
| "getFlightDetails_js d JNull = Some []"
| "getFlightDetails_js d (JBool b) = (if b then None else Some [])"
| "getFlightDetails_js d (JNum n) = (if n = 0 then Some [] else None)"
| "getFlightDetails_js d (JStr s) = (if s = [] then Some [] else None)"

record BookingHistoryResponse =
  booking :: booking
  timeline :: "timeline_event list"
  airline_details :: "airline list"
  flight_details :: "flight list"

definition select_timeline :: "db \<Rightarrow> int \<Rightarrow> timeline_event list" where
  "select_timeline d bid =
     sort_key timeline_event.created_at (filter (\<lambda>e. booking_id e = bid) (timeline_events d))"

definition select_airlines :: "db \<Rightarrow> flight list \<Rightarrow> airline list" where
  "select_airlines d flightDetails =
     (let airlineIds = remdups (map airline_id flightDetails)
      in if length airlineIds > 0 then filter (\<lambda>a. a_id a \<in> set airlineIds) (airlines d)
         else [])"

definition getBookingHistory ::
    "json_parser \<Rightarrow> db \<Rightarrow> string \<Rightarrow> BookingHistoryResponse option" where
  "getBookingHistory JSON_parse d r =
     (case find (\<lambda>b. ref_id b = r) (bookings d) of
        None \<Rightarrow> None
      | Some b \<Rightarrow>
          let timelineEvents = select_timeline d (b_id b);
              flightDetails =
                (case booking.flight_ids b of
                   None \<Rightarrow> []
                 | Some txt \<Rightarrow>
                     if txt = [] then []
                     else case JSON_parse txt of
                            None \<Rightarrow> []
                          | Some flightIds \<Rightarrow>
                              (case getFlightDetails_js d flightIds of
                                 None \<Rightarrow> []
                               | Some fs \<Rightarrow> fs))
          in Some \<lparr>booking = b, timeline = timelineEvents,
                   airline_details = select_airlines d flightDetails,
                   flight_details = flightDetails\<rparr>)"

section \<open>Bookings controller (backend/src/controllers/BookingsController.ts)\<close>

record CreateBookingRequest =
  origin :: string
  destination :: string
  pieces :: int
  weight_kg :: int
  flight_ids :: "int list"

text \<open>
  The responses of \<^verbatim>\<open>createBooking\<close>: 401, the four 400s by their \<^verbatim>\<open>error\<close> field,
  500 for anything thrown, and 201 with the booking, its flights and its timeline
  (the display formatting of the timeline is left out).
\<close>

datatype response =
  Unauthorized
| InvalidRoute
| InvalidFlightSequence validation_error
| InvalidFlights
| RouteMismatch
| InternalServerError
| Created booking "flight list" "timeline_event list"

definition createBooking ::
    "json_parser \<Rightarrow> int option \<Rightarrow> CreateBookingRequest \<Rightarrow> string \<Rightarrow> nat \<Rightarrow> db
      \<Rightarrow> response \<times> db" where
  "createBooking JSON_parse user req today now d =
     (case user of
        None \<Rightarrow> (Unauthorized, d)
      | Some userId \<Rightarrow>
          if CreateBookingRequest.origin req = CreateBookingRequest.destination req
          then (InvalidRoute, d)
          else case validateFlightSequence d (CreateBookingRequest.flight_ids req) of
                 Invalid e \<Rightarrow> (InvalidFlightSequence e, d)
               | Valid \<Rightarrow>
                   let flights = getFlightDetails d (CreateBookingRequest.flight_ids req)
                   in if length flights = 0 then (InvalidFlights, d)
                      else
                        let firstFlight = hd flights; lastFlight = last flights
                        in if flight.origin firstFlight \<noteq> CreateBookingRequest.origin req \<or>
                              flight.destination lastFlight \<noteq> CreateBookingRequest.destination req
                           then (RouteMismatch, d)
                           else
                             case create
                                    \<lparr>bookingData.user_id = userId,
                                     bookingData.origin = CreateBookingRequest.origin req,
                                     bookingData.destination = CreateBookingRequest.destination req,
                                     bookingData.pieces = CreateBookingRequest.pieces req,
                                     bookingData.weight_kg = CreateBookingRequest.weight_kg req,
                                     bookingData.flight_ids =
                                       Some (CreateBookingRequest.flight_ids req)\<rparr>
                                    today now d of
                               (Inl e, d1) \<Rightarrow> (InternalServerError, d1)
                             | (Inr b, d1) \<Rightarrow>
                                 (case getBookingHistory JSON_parse d1 (ref_id b) of
                                    None \<Rightarrow> (Created b [] [], d1)
                                  | Some h \<Rightarrow> (Created b (flight_details h) (timeline h), d1)))"

subsection \<open>The status transitions of the specification\<close>

text \<open>
  The conditional update: the new status and the update time where the reference id
  matches and the current status is the required one, every other row as it was.
\<close>

definition conditional_update ::
    "string \<Rightarrow> BookingStatus \<Rightarrow> BookingStatus \<Rightarrow> nat \<Rightarrow> booking list \<Rightarrow> booking list" where
  "conditional_update r required new now bs =
     map (\<lambda>b. if ref_id b = r \<and> status b = required
              then b\<lparr>status := new, updated_at := now\<rparr> else b) bs"

text \<open>The store with one more timeline event, which gets the next id.\<close>

definition with_event ::
    "db \<Rightarrow> int \<Rightarrow> TimelineEventType \<Rightarrow> string option \<Rightarrow> string option \<Rightarrow> string \<Rightarrow> nat \<Rightarrow> db" where
  "with_event d bid ty loc info nts now =
     d\<lparr>timeline_events := timeline_events d @
          [\<lparr>e_id = seq_timeline_events d + 1, booking_id = bid, event_type = ty,
            location = loc, flight_info = info, e_notes = Some nts,
            timeline_event.created_at = now\<rparr>],
       seq_timeline_events := seq_timeline_events d + 1\<rparr>"

text \<open>The responses that reject a request before anything is written (401 and 400).\<close>

fun rejected :: "response \<Rightarrow> bool" where
  "rejected Unauthorized = True"
| "rejected InvalidRoute = True"
| "rejected (InvalidFlightSequence e) = True"
| "rejected InvalidFlights = True"
| "rejected RouteMismatch = True"
| "rejected InternalServerError = False"
| "rejected (Created b fs es) = False"

subsection \<open>The format of reference ids\<close>

definition is_digit :: "char \<Rightarrow> bool" where
  "is_digit c \<longleftrightarrow> c \<in> set ''0123456789''"

text \<open>The regular expression \<^verbatim>\<open>^AC-\d{8}-\d{4}$\<close>.\<close>

definition matches_ref_regex :: "string \<Rightarrow> bool" where
  "matches_ref_regex s \<longleftrightarrow>
     length s = 16 \<and> take 3 s = ''AC-'' \<and> list_all is_digit (take 8 (drop 3 s)) \<and>
     take 1 (drop 11 s) = ''-'' \<and> list_all is_digit (drop 12 s)"

text \<open>The number that a string of decimal digits denotes.\<close>

definition digit_value :: "char \<Rightarrow> nat" where
  "digit_value c = of_char c - 48"

definition decimal_value :: "string \<Rightarrow> nat" where
  "decimal_value s = foldl (\<lambda>n c. 10 * n + digit_value c) 0 s"

text \<open>Calls of \<open>generateRefId\<close> one after the other, each at its own instant.\<close>

fun generate_all :: "string list \<Rightarrow> db \<Rightarrow> (error + string) list \<times> db" where
  "generate_all [] d = ([], d)"
| "generate_all (today # rest) d =
     (case generateRefId today d of
        (r, d1) \<Rightarrow> (case generate_all rest d1 of (rs, d2) \<Rightarrow> (r # rs, d2)))"

text \<open>
  Creations one after the other, each with its data, at its own instant and with its
  own value of \<^verbatim>\<open>CURRENT_TIMESTAMP\<close>.
\<close>

fun create_all :: "(bookingData \<times> Date \<times> nat) list \<Rightarrow> db \<Rightarrow> (error + booking) list \<times> db" where
  "create_all [] d = ([], d)"
| "create_all ((bd, t, now) # rest) d =
     (case create bd (toISOString t) now d of
        (r, d1) \<Rightarrow> (case create_all rest d1 of (rs, d2) \<Rightarrow> (r # rs, d2)))"

text \<open>
  Two calls of \<open>generateRefId\<close> in flight at once: each call awaits its \<^verbatim>\<open>SELECT\<close>
  before it issues its write, and here both reads are served before either write.
\<close>

definition two_calls_interleaved ::
    "string \<Rightarrow> string \<Rightarrow> db \<Rightarrow> ((error + string) \<times> (error + string)) \<times> db" where
  "two_calls_interleaved today1 today2 d =
     (let counter1 = select_counter (dateKey_of today1) d;
          counter2 = select_counter (dateKey_of today2) d
      in case write_counter (dateKey_of today1) counter1 d of
           (r1, d1) \<Rightarrow>
             (case write_counter (dateKey_of today2) counter2 d1 of
                (r2, d2) \<Rightarrow> ((r1, r2), d2)))"


subsection \<open>The transit search of the specification\<close>

text \<open>
  A first leg departs the origin on the search date to a hub other than the destination.
  A second leg for it flies from its hub to the destination, departs on the calendar day
  of the first leg's arrival or the day after, and not less than 2 hours and not more
  than 24 hours after that arrival.
\<close>

definition first_leg :: "string \<Rightarrow> string \<Rightarrow> day \<Rightarrow> flight \<Rightarrow> bool" where
  "first_leg orig dest date f \<longleftrightarrow>
     flight.origin f = orig \<and> DATE (departure_datetime f) = date \<and>
     flight.destination f \<noteq> dest"

definition second_leg :: "string \<Rightarrow> flight \<Rightarrow> flight \<Rightarrow> bool" where
  "second_leg dest f s \<longleftrightarrow>
     flight.origin s = flight.destination f \<and> flight.destination s = dest \<and>
     (DATE (departure_datetime s) = DATE (arrival_datetime f) \<or>
      DATE (departure_datetime s) = DATE (arrival_datetime f) + 1) \<and>
     2 * 60 * 60 * 1000 \<le> departure_datetime s - arrival_datetime f \<and>
     departure_datetime s - arrival_datetime f \<le> 24 * 60 * 60 * 1000"

text \<open>
  For one first leg, the five earliest of its second legs; all pairs of a first leg with
  one of these; and of all pairs the ten of least total time.
\<close>

definition earliest_second_legs :: "db \<Rightarrow> string \<Rightarrow> flight \<Rightarrow> flight list" where
  "earliest_second_legs d dest f = take 5 (select_flights d (second_leg dest f))"

definition transit_candidates :: "db \<Rightarrow> string \<Rightarrow> string \<Rightarrow> day \<Rightarrow> transit_route list" where
  "transit_candidates d orig dest date =
     concat (map (\<lambda>f. map (\<lambda>s. \<lparr>first_flight = f, second_flight = s\<rparr>)
                         (earliest_second_legs d dest f))
               (select_flights d (first_leg orig dest date)))"

definition transit_search :: "db \<Rightarrow> string \<Rightarrow> string \<Rightarrow> day \<Rightarrow> transit_route list" where
  "transit_search d orig dest date =
     take 10 (sort_key totalTime (transit_candidates d orig dest date))"

text \<open>The hubs and the second-leg flight ids of a list of routes.\<close>

definition hubs :: "transit_route list \<Rightarrow> string list" where
  "hubs rs = map (\<lambda>r. flight.destination (first_flight r)) rs"

definition second_ids :: "transit_route list \<Rightarrow> int list" where
  "second_ids rs = map (\<lambda>r. f_id (second_flight r)) rs"

subsection \<open>The rules of the specification, stated on a pair of legs\<close>

definition resolves :: "db \<Rightarrow> int \<Rightarrow> bool" where
  "resolves d i \<longleftrightarrow> getFlightDetails d [i] \<noteq> []"

definition pair_ok :: "flight \<Rightarrow> flight \<Rightarrow> bool" where
  "pair_ok a b \<longleftrightarrow>
     flight.destination a = flight.origin b \<and>
     2 * 60 * 60 * 1000 \<le> departure_datetime b - arrival_datetime a \<and>
     departure_datetime b - arrival_datetime a \<le> 24 * 60 * 60 * 1000"

definition pair_failure :: "flight \<Rightarrow> flight \<Rightarrow> validation_error" where
  "pair_failure a b =
     (if flight.destination a \<noteq> flight.origin b
      then RouteBreak (flight.destination a) (flight.origin b)
      else if departure_datetime b - arrival_datetime a < 2 * 60 * 60 * 1000
      then InsufficientConnection
      else ConnectionTooLong)"

definition pairs_ok :: "flight list \<Rightarrow> bool" where
  "pairs_ok legs \<longleftrightarrow> (\<forall>i < length legs - 1. pair_ok (legs ! i) (legs ! Suc i))"

section \<open>A small store for concrete runs\<close>

text \<open>
  Day 0 of the epoch: AI101 DEL-BOM 08:00-10:00, AI202 BOM-BLR 12:30-14:00 (a connection
  of 150 minutes), AI303 BOM-BLR 11:30-13:00 (a connection of 90 minutes).
\<close>

definition AI101 :: flight where
  "AI101 = \<lparr>f_id = 1, flight_number = ''AI101'', airline_id = 1, airline_name = None,
     airline_code = None, flight.origin = ''DEL'', flight.destination = ''BOM'',
     departure_datetime = 28800000, arrival_datetime = 36000000\<rparr>"

definition AI202 :: flight where
  "AI202 = \<lparr>f_id = 2, flight_number = ''AI202'', airline_id = 1, airline_name = None,
     airline_code = None, flight.origin = ''BOM'', flight.destination = ''BLR'',
     departure_datetime = 45000000, arrival_datetime = 50400000\<rparr>"

definition AI303 :: flight where
  "AI303 = \<lparr>f_id = 3, flight_number = ''AI303'', airline_id = 1, airline_name = None,
     airline_code = None, flight.origin = ''BOM'', flight.destination = ''BLR'',
     departure_datetime = 41400000, arrival_datetime = 46800000\<rparr>"

definition db0 :: db where
  "db0 = \<lparr>airlines = [\<lparr>a_id = 1, code = ''AI'', name = ''Air India''\<rparr>],
     flights = [AI101, AI202, AI303], users = [7], bookings = [], timeline_events = [],
     booking_counters = [], seq_bookings = 0, seq_timeline_events = 0\<rparr>"

definition req11 :: CreateBookingRequest where
  "req11 = \<lparr>CreateBookingRequest.origin = ''DEL'', CreateBookingRequest.destination = ''BOM'',
     CreateBookingRequest.pieces = 3, CreateBookingRequest.weight_kg = 40,
     CreateBookingRequest.flight_ids = [1, 1]\<rparr>"

text \<open>
  The store after one booking of user 7 on flight 1, put in a given status: its row, its
  \<open>CREATED\<close> event and the day's counter.
\<close>

definition bk1 :: booking where
  "bk1 = \<lparr>b_id = 1, ref_id = ''AC-19700101-0001'', booking.user_id = 7,
     booking.origin = ''DEL'', booking.destination = ''BOM'', booking.pieces = 3,
     booking.weight_kg = 40, status = BOOKED, booking.flight_ids = Some ''[1]'',
     booking.created_at = 0, updated_at = 0\<rparr>"

definition ev1 :: timeline_event where
  "ev1 = \<lparr>e_id = 1, booking_id = 1, event_type = EV_CREATED, location = Some ''DEL'',
     flight_info = None, e_notes = Some ''Booking created for 3 pieces, 40kg'',
     timeline_event.created_at = 0\<rparr>"

definition db_in :: "BookingStatus \<Rightarrow> db" where
  "db_in s = db0\<lparr>bookings := [bk1\<lparr>status := s\<rparr>], timeline_events := [ev1],
     booking_counters := [(''1970-01-01'', 1)], seq_bookings := 1,
     seq_timeline_events := 1\<rparr>"

text \<open>Requests of user 7 from DEL: to DEL itself, and to BLR on given flights.\<close>

definition req_to :: "string \<Rightarrow> int list \<Rightarrow> CreateBookingRequest" where
  "req_to dest ids = \<lparr>CreateBookingRequest.origin = ''DEL'',
     CreateBookingRequest.destination = dest, CreateBookingRequest.pieces = 3,
     CreateBookingRequest.weight_kg = 40, CreateBookingRequest.flight_ids = ids\<rparr>"

text \<open>A parser that reads the itinerary text \<^verbatim>\<open>[1,2]\<close> and rejects every other text.\<close>

definition parse_12 :: json_parser where
  "parse_12 txt = (if txt = ''[1,2]'' then Some (JArr [JNum 1, JNum 2]) else None)"

definition noon :: string where
  "noon = ''2024-08-23T12:00:00.000Z''"

text \<open>
  Noon and half past six in the evening of 23 August 2024, and the data of a booking
  from DEL to BLR on flights 1 and 2 for a given user.
\<close>

definition noon_date :: Date where
  "noon_date = \<lparr>utc_year = 2024, utc_month = 8, utc_day = 23, utc_hours = 12,
     utc_minutes = 0, utc_seconds = 0, utc_ms = 0\<rparr>"

definition evening_date :: Date where
  "evening_date = \<lparr>utc_year = 2024, utc_month = 8, utc_day = 23, utc_hours = 18,
     utc_minutes = 30, utc_seconds = 0, utc_ms = 0\<rparr>"

definition data_of :: "int \<Rightarrow> bookingData" where
  "data_of u = \<lparr>bookingData.user_id = u, bookingData.origin = ''DEL'',
     bookingData.destination = ''BLR'', bookingData.pieces = 3, bookingData.weight_kg = 40,
     bookingData.flight_ids = Some [1, 2]\<rparr>"

text \<open>The store after user 7 has booked DEL to BLR on flights 1 and 2 at noon.\<close>

definition bk12 :: booking where
  "bk12 = \<lparr>b_id = 1, ref_id = ''AC-20240823-0001'', booking.user_id = 7,
     booking.origin = ''DEL'', booking.destination = ''BLR'', booking.pieces = 3,
     booking.weight_kg = 40, status = BOOKED, booking.flight_ids = Some ''[1,2]'',
     booking.created_at = 0, updated_at = 0\<rparr>"

definition db12 :: db where
  "db12 = db0\<lparr>bookings := [bk12], timeline_events := [ev1],
     booking_counters := [(''2024-08-23'', 1)], seq_bookings := 1,
     seq_timeline_events := 1\<rparr>"

text \<open>
  Day 0 again, with two flights DEL-BOM (06:00-08:00 and 10:00-12:00) and six flights
  BOM-BLR of 90 minutes, departing at 10:00, 10:30, 11:00, 11:30, 12:00 and 14:00.
\<close>

definition leg :: "int \<Rightarrow> string \<Rightarrow> string \<Rightarrow> millis \<Rightarrow> millis \<Rightarrow> flight" where
  "leg i orig dest dep arr = \<lparr>f_id = i, flight_number = ''AI'' @ string_of_int i,
     airline_id = 1, airline_name = None, airline_code = None, flight.origin = orig,
     flight.destination = dest, departure_datetime = dep, arrival_datetime = arr\<rparr>"

definition db_hub :: db where
  "db_hub = db0\<lparr>flights :=
     [leg 1 ''DEL'' ''BOM'' 21600000 28800000, leg 2 ''DEL'' ''BOM'' 36000000 43200000,
      leg 11 ''BOM'' ''BLR'' 36000000 41400000, leg 12 ''BOM'' ''BLR'' 37800000 43200000,
      leg 13 ''BOM'' ''BLR'' 39600000 45000000, leg 14 ''BOM'' ''BLR'' 41400000 46800000,
      leg 15 ''BOM'' ''BLR'' 43200000 48600000, leg 16 ''BOM'' ''BLR'' 50400000 55800000]\<rparr>"

section \<open>Properties of the route finder\<close>

lemma filter_key_le_one:
  "distinct (map g xs) \<Longrightarrow> length (filter (\<lambda>x. k = g x) xs) \<le> 1"
proof (induction xs)
  case Nil
  then show ?case by simp
next
  case (Cons x xs)
  show ?case
  proof (cases "k = g x")
    case True
    with Cons.prems have "filter (\<lambda>y. k = g y) xs = []"
      by (auto simp: filter_empty_conv)
    with True show ?thesis by simp
  next
    case False
    with Cons show ?thesis by simp
  qed
qed

lemma join_airline_f_id: "r \<in> set (join_airline als f) \<Longrightarrow> f_id r = f_id f"
  by (auto simp: join_airline_def)

lemma join_airline_length:
  "distinct (map a_id als) \<Longrightarrow> length (join_airline als f) \<le> 1"
  using filter_key_le_one [of a_id als "airline_id f"] by (simp add: join_airline_def)

lemma join_airline_cases:
  assumes "distinct (map a_id als)"
  shows "join_airline als f = [] \<or> (\<exists>r. join_airline als f = [r] \<and> f_id r = f_id f)"
proof (cases "join_airline als f")
  case Nil
  then show ?thesis by simp
next
  case (Cons r rs)
  with join_airline_length [OF assms, of f] have "rs = []" by simp
  moreover have "f_id r = f_id f"
    by (rule join_airline_f_id [of r als f]) (simp add: Cons)
  ultimately show ?thesis using Cons by simp
qed

lemma join_rows_ids:
  "x \<in> set (concat (map (join_airline als) fs)) \<Longrightarrow> f_id x \<in> f_id ` set fs"
proof -
  assume "x \<in> set (concat (map (join_airline als) fs))"
  then obtain f where f: "f \<in> set fs" "x \<in> set (join_airline als f)" by auto
  from f(2) have "f_id x = f_id f" by (rule join_airline_f_id)
  with f(1) show ?thesis by simp
qed

lemma join_rows_distinct:
  assumes "distinct (map a_id als)"
  shows "distinct (map f_id fs) \<Longrightarrow> distinct (map f_id (concat (map (join_airline als) fs)))"
proof (induction fs)
  case Nil
  then show ?case by simp
next
  case (Cons f fs)
  from Cons have IH: "distinct (map f_id (concat (map (join_airline als) fs)))" by simp
  from join_airline_cases [OF assms, of f] show ?case
  proof
    assume "join_airline als f = []"
    with IH show ?thesis by simp
  next
    assume "\<exists>r. join_airline als f = [r] \<and> f_id r = f_id f"
    then obtain r where r: "join_airline als f = [r]" "f_id r = f_id f" by blast
    have "f_id f \<notin> f_id ` set (concat (map (join_airline als) fs))"
    proof
      assume "f_id f \<in> f_id ` set (concat (map (join_airline als) fs))"
      then obtain x where "x \<in> set (concat (map (join_airline als) fs))" "f_id x = f_id f"
        by force
      with join_rows_ids [of x als fs] have "f_id f \<in> f_id ` set fs" by simp
      with Cons.prems show False by simp
    qed
    with IH r show ?thesis by simp
  qed
qed

lemma select_flights_sorted: "sorted (map departure_datetime (select_flights d cond))"
  by (simp add: select_flights_def)

lemma select_flights_set:
  "set (select_flights d cond) =
     (\<Union>f \<in> {f \<in> set (flights d). cond f}. set (join_airline (airlines d) f))"
  by (auto simp: select_flights_def)

lemma select_flights_distinct:
  assumes "wf_db d"
  shows "distinct (map f_id (select_flights d cond))"
proof -
  let ?rows = "concat (map (join_airline (airlines d)) (filter cond (flights d)))"
  from assms have "distinct (map f_id (filter cond (flights d)))"
    by (simp add: wf_db_def distinct_map_filter)
  with assms have "distinct (map f_id ?rows)"
    by (simp add: wf_db_def join_rows_distinct)
  moreover have "mset (map f_id (select_flights d cond)) = mset (map f_id ?rows)"
    by (simp add: select_flights_def)
  ultimately show ?thesis
    by (metis mset_eq_imp_distinct_iff)
qed

lemma getFlightDetails_sorted: "sorted (map departure_datetime (getFlightDetails d ids))"
  by (simp add: getFlightDetails_def select_flights_sorted)

lemma getFlightDetails_distinct:
  "wf_db d \<Longrightarrow> distinct (map f_id (getFlightDetails d ids))"
  by (simp add: getFlightDetails_def select_flights_distinct)

lemma resolves_iff:
  "resolves d i \<longleftrightarrow>
     (\<exists>f \<in> set (flights d). f_id f = i \<and> join_airline (airlines d) f \<noteq> [])"
proof -
  have "resolves d i \<longleftrightarrow> set (getFlightDetails d [i]) \<noteq> {}"
    by (simp add: resolves_def)
  also have "\<dots> \<longleftrightarrow>
     (\<exists>f \<in> set (flights d). f_id f = i \<and> set (join_airline (airlines d) f) \<noteq> {})"
    by (auto simp: getFlightDetails_def select_flights_set)
  finally show ?thesis by simp
qed

lemma getFlightDetails_mem:
  "r \<in> set (getFlightDetails d ids) \<longleftrightarrow>
     (\<exists>f \<in> set (flights d). f_id f \<in> set ids \<and> r \<in> set (join_airline (airlines d) f))"
  by (cases "ids = []") (auto simp: getFlightDetails_def select_flights_set)

lemma getFlightDetails_ids:
  "f_id ` set (getFlightDetails d ids) = {i \<in> set ids. resolves d i}"
proof (intro set_eqI iffI)
  fix i
  assume "i \<in> f_id ` set (getFlightDetails d ids)"
  then obtain r f where "f \<in> set (flights d)" "f_id f \<in> set ids"
    "r \<in> set (join_airline (airlines d) f)" "i = f_id r"
    by (auto simp: getFlightDetails_mem)
  moreover from this have "f_id r = f_id f" "join_airline (airlines d) f \<noteq> []"
    by (auto dest: join_airline_f_id)
  ultimately show "i \<in> {i \<in> set ids. resolves d i}"
    by (auto simp: resolves_iff)
next
  fix i
  assume "i \<in> {i \<in> set ids. resolves d i}"
  then obtain f where f: "i \<in> set ids" "f \<in> set (flights d)" "f_id f = i"
    "join_airline (airlines d) f \<noteq> []"
    by (auto simp: resolves_iff)
  then obtain r where r: "r \<in> set (join_airline (airlines d) f)"
    by (cases "join_airline (airlines d) f") auto
  then have "f_id r = i" using f by (auto dest: join_airline_f_id)
  moreover from f r have "r \<in> set (getFlightDetails d ids)"
    by (auto simp: getFlightDetails_mem)
  ultimately show "i \<in> f_id ` set (getFlightDetails d ids)" by blast
qed

lemma getFlightDetails_length:
  assumes "wf_db d"
  shows "length (getFlightDetails d ids) = card {i \<in> set ids. resolves d i}"
proof -
  have "length (getFlightDetails d ids) = length (map f_id (getFlightDetails d ids))"
    by simp
  also have "\<dots> = card (set (map f_id (getFlightDetails d ids)))"
    by (rule distinct_card [symmetric]) (rule getFlightDetails_distinct [OF assms])
  also have "\<dots> = card {i \<in> set ids. resolves d i}"
    by (simp add: getFlightDetails_ids)
  finally show ?thesis .
qed

lemma unresolved_length:
  assumes "wf_db d" and "i \<in> set ids" and "\<not> resolves d i"
  shows "length (getFlightDetails d ids) < length ids"
proof -
  have "{j \<in> set ids. resolves d j} \<subset> set ids"
    using assms(2,3) by blast
  then have "card {j \<in> set ids. resolves d j} < card (set ids)"
    by (simp add: psubset_card_mono)
  also have "\<dots> \<le> length ids" by (rule card_length)
  finally show ?thesis by (simp add: getFlightDetails_length [OF assms(1)])
qed

lemma duplicate_length:
  assumes "wf_db d" and "\<not> distinct ids"
  shows "length (getFlightDetails d ids) < length ids"
proof -
  have "card {j \<in> set ids. resolves d j} \<le> card (set ids)"
    by (simp add: card_mono)
  moreover have "card (set ids) < length ids"
    using assms(2) card_distinct [of ids] card_length [of ids] by fastforce
  ultimately show ?thesis by (simp add: getFlightDetails_length [OF assms(1)])
qed

lemma resolved_length:
  assumes "wf_db d" and "distinct ids" and "\<forall>i \<in> set ids. resolves d i"
  shows "length (getFlightDetails d ids) = length ids"
proof -
  from assms(3) have "{j \<in> set ids. resolves d j} = set ids" by blast
  with assms(2) show ?thesis
    by (simp add: getFlightDetails_length [OF assms(1)] distinct_card)
qed

lemma check_sequence_step:
  "check_sequence (a # b # rest) =
     (if pair_ok a b then check_sequence (b # rest) else Invalid (pair_failure a b))"
  by (simp add: pair_ok_def pair_failure_def minimumConnectionTime_def
      maxConnectionTime_def Let_def)

lemma pairs_ok_step: "pairs_ok (a # b # rest) \<longleftrightarrow> pair_ok a b \<and> pairs_ok (b # rest)"
  by (auto simp: pairs_ok_def less_Suc_eq_0_disj)

lemma check_sequence_Valid_iff: "check_sequence legs = Valid \<longleftrightarrow> pairs_ok legs"
proof (induction legs rule: induct_list012)
  case 1
  show ?case by (simp add: pairs_ok_def)
next
  case (2 a)
  show ?case by (simp add: pairs_ok_def)
next
  case (3 a b rest)
  then show ?case
    by (simp only: check_sequence_step pairs_ok_step split: if_splits) simp
qed

lemma check_sequence_Invalid:
  "check_sequence legs = Invalid e \<Longrightarrow>
     \<exists>i. Suc i < length legs \<and> (\<forall>j < i. pair_ok (legs ! j) (legs ! Suc j)) \<and>
         \<not> pair_ok (legs ! i) (legs ! Suc i) \<and> e = pair_failure (legs ! i) (legs ! Suc i)"
proof (induction legs rule: induct_list012)
  case 1
  then show ?case by simp
next
  case (2 a)
  then show ?case by simp
next
  case (3 a b rest)
  show ?case
  proof (cases "pair_ok a b")
    case True
    with 3(3) have "check_sequence (b # rest) = Invalid e"
      by (simp only: check_sequence_step if_True)
    from 3(2) [OF this] obtain i where i: "Suc i < length (b # rest)"
      "\<forall>j < i. pair_ok ((b # rest) ! j) ((b # rest) ! Suc j)"
      "\<not> pair_ok ((b # rest) ! i) ((b # rest) ! Suc i)"
      "e = pair_failure ((b # rest) ! i) ((b # rest) ! Suc i)"
      by blast
    have "\<forall>j < Suc i. pair_ok ((a # b # rest) ! j) ((a # b # rest) ! Suc j)"
      using True i(2) by (auto simp: less_Suc_eq_0_disj)
    with i show ?thesis
      by (intro exI [of _ "Suc i"]) simp
  next
    case False
    with 3(3) have "e = pair_failure a b"
      by (simp only: check_sequence_step if_False validation.inject)
    with False show ?thesis
      by (intro exI [of _ 0]) simp
  qed
qed

lemma wf_db0: "wf_db db0"
  by (simp add: wf_db_def db0_def AI101_def AI202_def AI303_def)

lemmas db0_defs = db0_def AI101_def AI202_def AI303_def getFlightDetails_def select_flights_def
  join_airline_def

lemma resolves_db0: "resolves db0 1 \<and> resolves db0 2 \<and> resolves db0 3 \<and> \<not> resolves db0 9"
  by (simp add: resolves_def db0_defs)

lemma validate_duplicates:
  assumes "wf_db d" and "\<not> distinct ids"
  shows "validateFlightSequence d ids = Invalid SomeFlightsNotFound"
proof -
  from assms(2) have "ids \<noteq> []" by auto
  with duplicate_length [OF assms] show ?thesis
    by (simp add: validateFlightSequence_def)
qed

section \<open>Flight sequence validation\<close>

text \<open>
  Claim C2, as the code has it. In a store that satisfies its key constraints, for a
  non-empty list of flight ids: if some id does not resolve to a flight, the operation
  fails with \<open>SomeFlightsNotFound\<close> (the specification's InvalidSequence). If the list is
  free of duplicates and every id resolves, the resolved flights \<open>legs\<close> come sorted by
  departure time, one per id, and the operation succeeds if and only if every consecutive
  pair satisfies the three rules (\<open>pairs_ok\<close>); when it fails, the failure is the one of
  the first violating pair, by the first rule that pair violates (route break, then
  less than 2 hours, then more than 24 hours: \<open>pair_failure\<close>). A single flight
  validates. The restriction to duplicate-free lists is needed: see the counterexample
  below.
\<close>

theorem validateFlightSequence_rules:
  assumes "wf_db d" and "ids \<noteq> []"
  shows "((\<exists>i \<in> set ids. \<not> resolves d i) \<longrightarrow>
            validateFlightSequence d ids = Invalid SomeFlightsNotFound) \<and>
         (distinct ids \<and> (\<forall>i \<in> set ids. resolves d i) \<longrightarrow>
            (let legs = getFlightDetails d ids
             in sorted (map departure_datetime legs) \<and> f_id ` set legs = set ids \<and>
                length legs = length ids \<and>
                (validateFlightSequence d ids = Valid \<longleftrightarrow> pairs_ok legs) \<and>
                (\<forall>e. validateFlightSequence d ids = Invalid e \<longrightarrow>
                   (\<exists>i. Suc i < length legs \<and>
                        (\<forall>j < i. pair_ok (legs ! j) (legs ! Suc j)) \<and>
                        \<not> pair_ok (legs ! i) (legs ! Suc i) \<and>
                        e = pair_failure (legs ! i) (legs ! Suc i))) \<and>
                (length ids = 1 \<longrightarrow> validateFlightSequence d ids = Valid)))"
proof (intro conjI impI)
  assume "\<exists>i \<in> set ids. \<not> resolves d i"
  then obtain i where "i \<in> set ids" "\<not> resolves d i" by blast
  from unresolved_length [OF assms(1) this]
  show "validateFlightSequence d ids = Invalid SomeFlightsNotFound"
    using assms(2) by (simp add: validateFlightSequence_def)
next
  assume a: "distinct ids \<and> (\<forall>i \<in> set ids. resolves d i)"
  let ?legs = "getFlightDetails d ids"
  have len: "length ?legs = length ids"
    using a by (simp add: resolved_length [OF assms(1)])
  have srt: "sorted (map departure_datetime ?legs)"
    by (rule getFlightDetails_sorted)
  have ids: "f_id ` set ?legs = set ids"
    using a by (auto simp: getFlightDetails_ids)
  have v: "validateFlightSequence d ids = check_sequence ?legs"
    using assms(2) len srt by (simp add: validateFlightSequence_def sort_key_id_if_sorted)
  have one: "length ids = 1 \<longrightarrow> validateFlightSequence d ids = Valid"
  proof
    assume "length ids = 1"
    with len have "length ?legs = 1" by simp
    then obtain x where "?legs = [x]" by (cases ?legs) auto
    with v show "validateFlightSequence d ids = Valid" by simp
  qed
  show "let legs = getFlightDetails d ids
        in sorted (map departure_datetime legs) \<and> f_id ` set legs = set ids \<and>
           length legs = length ids \<and>
           (validateFlightSequence d ids = Valid \<longleftrightarrow> pairs_ok legs) \<and>
           (\<forall>e. validateFlightSequence d ids = Invalid e \<longrightarrow>
              (\<exists>i. Suc i < length legs \<and>
                   (\<forall>j < i. pair_ok (legs ! j) (legs ! Suc j)) \<and>
                   \<not> pair_ok (legs ! i) (legs ! Suc i) \<and>
                   e = pair_failure (legs ! i) (legs ! Suc i))) \<and>
           (length ids = 1 \<longrightarrow> validateFlightSequence d ids = Valid)"
    unfolding Let_def
    using len srt ids one check_sequence_Invalid [of ?legs]
    by (simp add: v check_sequence_Valid_iff)
qed

text \<open>
  The theorem at work: flights 1 and 2 connect in 150 minutes and validate; flight 9 is
  not in the store.
\<close>

theorem validateFlightSequence_rules_witness:
  "wf_db db0 \<and> distinct [1, 2 :: int] \<and> resolves db0 1 \<and> resolves db0 2 \<and> \<not> resolves db0 9 \<and>
   validateFlightSequence db0 [1, 2] = Valid \<and>
   map f_id (getFlightDetails db0 [1, 2]) = [1, 2] \<and>
   validateFlightSequence db0 [1, 9] = Invalid SomeFlightsNotFound"
proof -
  have ok: "pairs_ok (getFlightDetails db0 [1, 2])"
    by (simp add: pairs_ok_def pair_ok_def db0_defs)
  have ids: "map f_id (getFlightDetails db0 [1, 2]) = [1, 2]"
    by (simp add: db0_defs)
  from validateFlightSequence_rules [of db0 "[1, 2]"] wf_db0 resolves_db0 ok
  have "validateFlightSequence db0 [1, 2] = Valid"
    by (simp add: Let_def)
  moreover from validateFlightSequence_rules [of db0 "[1, 9]"] wf_db0 resolves_db0
  have "validateFlightSequence db0 [1, 9] = Invalid SomeFlightsNotFound"
    by simp
  ultimately show ?thesis
    using wf_db0 resolves_db0 ids by simp
qed

text \<open>
  Claim C2 as it is stated, for every non-empty list whose ids all resolve, fails on a
  list that names a flight twice: every id of \<open>[1, 1]\<close> resolves, the resolved flights
  are the single flight 1, no consecutive pair breaks a rule, and yet the operation
  fails, with none of the three pair failures.
\<close>

theorem validateFlightSequence_duplicate_counterexample:
  "wf_db db0 \<and> [1, 1 :: int] \<noteq> [] \<and> resolves db0 1 \<and>
   pairs_ok (sort_key departure_datetime (getFlightDetails db0 [1, 1])) \<and>
   validateFlightSequence db0 [1, 1] \<noteq> Valid \<and>
   validateFlightSequence db0 [1, 1] = Invalid SomeFlightsNotFound"
proof -
  have "pairs_ok (sort_key departure_datetime (getFlightDetails db0 [1, 1]))"
    by (simp add: pairs_ok_def db0_defs)
  moreover have "validateFlightSequence db0 [1, 1] = Invalid SomeFlightsNotFound"
    by (simp add: validateFlightSequence_def db0_defs)
  ultimately show ?thesis
    using wf_db0 resolves_db0 by simp
qed

text \<open>
  Claim C9. The result of \<open>validateFlightSequence\<close> does not depend on the order of the
  ids: a list and any permutation of it get the same success or the same failure. The
  rows that the query finds depend on the set of the ids only, the check of their
  number on the length of the list only, and the rows are sorted by departure time
  before the pairs are checked. Rows of equal departure time come in rowid order here,
  so the statement holds for all flights, those of pairwise distinct departure times
  among them.
\<close>

theorem validateFlightSequence_permutation:
  assumes "mset ids = mset ids'"
  shows "validateFlightSequence d ids = validateFlightSequence d ids'"
proof -
  from assms have "set ids = set ids'" by (rule mset_eq_setD)
  moreover from assms have "length ids = length ids'" by (rule mset_eq_length)
  moreover from this have "ids = [] \<longleftrightarrow> ids' = []" by auto
  ultimately show ?thesis
    by (simp add: validateFlightSequence_def getFlightDetails_def)
qed

theorem validateFlightSequence_permutation_witness:
  "mset [2, 1 :: int] = mset [1, 2] \<and>
   validateFlightSequence db0 [2, 1] = validateFlightSequence db0 [1, 2] \<and>
   validateFlightSequence db0 [3, 1] = Invalid InsufficientConnection"
proof -
  have m: "mset [2, 1 :: int] = mset [1, 2]" by simp
  have "validateFlightSequence db0 [3, 1] = Invalid InsufficientConnection"
    by (simp add: validateFlightSequence_def minimumConnectionTime_def
        maxConnectionTime_def db0_defs)
  with m validateFlightSequence_permutation [OF m, of db0] show ?thesis by simp
qed

text \<open>
  Claim C10. In a store that satisfies its key constraints, a list of flight ids that
  names an id twice fails validation with \<open>SomeFlightsNotFound\<close>, whether or not its ids
  resolve: the query returns each flight once, so fewer rows than ids. A booking request
  with such a list is therefore answered with a failure (401 without a user, invalid
  route when origin and destination agree, the validation failure otherwise) and the
  store is returned as it was.
\<close>

theorem duplicate_flight_id_rejected:
  assumes "wf_db d" and "\<not> distinct ids" and "CreateBookingRequest.flight_ids req = ids"
  shows "validateFlightSequence d ids = Invalid SomeFlightsNotFound \<and>
         createBooking JSON_parse user req today now d =
           ((case user of
               None \<Rightarrow> Unauthorized
             | Some u \<Rightarrow>
                 if CreateBookingRequest.origin req = CreateBookingRequest.destination req
                 then InvalidRoute else InvalidFlightSequence SomeFlightsNotFound), d)"
  using validate_duplicates [OF assms(1,2)] assms(3)
  by (simp add: createBooking_def split: option.splits)

theorem duplicate_flight_id_rejected_witness:
  "wf_db db0 \<and> \<not> distinct [1, 1 :: int] \<and> resolves db0 1 \<and>
   validateFlightSequence db0 [1, 1] = Invalid SomeFlightsNotFound \<and>
   createBooking parse_12 (Some 7) req11 noon 0 db0 =
     (InvalidFlightSequence SomeFlightsNotFound, db0)"
  using duplicate_flight_id_rejected [of db0 "[1, 1]" req11 parse_12 "Some 7" noon 0] wf_db0 resolves_db0
  by (simp add: req11_def)

lemma find_map_same_key:
  assumes "\<And>x. g (f x) = g x"
  shows "find (\<lambda>y. g y = k) (map f xs) = map_option f (find (\<lambda>y. g y = k) xs)"
  by (induction xs) (simp_all add: assms)

lemma findByRefId_Some:
  "findByRefId d r = Some b \<Longrightarrow> b \<in> set (bookings d) \<and> ref_id b = r"
  by (auto simp: findByRefId_def find_Some_iff)

lemma updateStatus_unconditional:
  assumes "b \<in> set (bookings d)" "ref_id b = r"
  shows "updateStatus r new None now d =
           (True, d\<lparr>bookings := map (\<lambda>x. if ref_id x = r
                                          then x\<lparr>status := new, updated_at := now\<rparr> else x)
                                   (bookings d)\<rparr>)"
proof -
  have "b \<in> set (filter (\<lambda>b. ref_id b = r) (bookings d))"
    using assms by simp
  then have "filter (\<lambda>b. ref_id b = r) (bookings d) \<noteq> []"
    by (metis empty_iff list.set(1))
  then show ?thesis by (simp add: updateStatus_def)
qed

lemma findByRefId_after_cancel:
  "findByRefId (d\<lparr>bookings := map (\<lambda>x. if ref_id x = r
                                        then x\<lparr>status := new, updated_at := now\<rparr> else x)
                                 (bookings d)\<rparr>) r' =
     map_option (\<lambda>x. if ref_id x = r then x\<lparr>status := new, updated_at := now\<rparr> else x)
       (findByRefId d r')"
  unfolding findByRefId_def
  by (simp add: find_map_same_key [where g = ref_id])

lemma cancel_allowed:
  assumes "findByRefId d r = Some b" and "status b \<noteq> ARRIVED" and "status b \<noteq> DELIVERED"
  shows "cancel r now d =
           (True, with_event
              (d\<lparr>bookings := map (\<lambda>x. if ref_id x = r
                                        then x\<lparr>status := CANCELLED, updated_at := now\<rparr> else x)
                                 (bookings d)\<rparr>)
              (b_id b) EV_CANCELLED None None ''Booking cancelled by user'' now)"
proof -
  from assms(1) have b: "b \<in> set (bookings d)" "ref_id b = r"
    by (auto dest: findByRefId_Some)
  from updateStatus_unconditional [OF b] assms show ?thesis
    by (simp add: cancel_def insert_timeline_event_def with_event_def Let_def)
qed

section \<open>Booking lifecycle\<close>

text \<open>
  Claim C1, as the code has it. \<open>cancel\<close> returns false and leaves the store as it was
  when no booking has the reference id or when the booking is \<open>ARRIVED\<close> or
  \<open>DELIVERED\<close>. In every other status, \<open>BOOKED\<close>, \<open>DEPARTED\<close> and also \<open>CANCELLED\<close>, it
  returns true: the booking then has status \<open>CANCELLED\<close>, the bookings of other
  reference ids are as they were, and exactly one \<open>CANCELLED\<close> event of that booking is
  appended to the timeline.
\<close>

theorem cancel_rule:
  "(findByRefId d r = None \<longrightarrow> cancel r now d = (False, d)) \<and>
   (\<forall>b. findByRefId d r = Some b \<longrightarrow>
      (status b = ARRIVED \<or> status b = DELIVERED \<longrightarrow> cancel r now d = (False, d)) \<and>
      (status b = BOOKED \<or> status b = DEPARTED \<or> status b = CANCELLED \<longrightarrow>
         fst (cancel r now d) \<and>
         findByRefId (snd (cancel r now d)) r = Some (b\<lparr>status := CANCELLED, updated_at := now\<rparr>) \<and>
         (\<forall>r'. r' \<noteq> r \<longrightarrow> findByRefId (snd (cancel r now d)) r' = findByRefId d r') \<and>
         timeline_events (snd (cancel r now d)) =
           timeline_events d @
             [\<lparr>e_id = seq_timeline_events d + 1, booking_id = b_id b,
               event_type = EV_CANCELLED, location = None, flight_info = None,
               e_notes = Some ''Booking cancelled by user'',
               timeline_event.created_at = now\<rparr>]))"
proof (intro conjI allI impI)
  assume "findByRefId d r = None"
  then show "cancel r now d = (False, d)" by (simp add: cancel_def)
next
  fix b
  assume "findByRefId d r = Some b" "status b = ARRIVED \<or> status b = DELIVERED"
  then show "cancel r now d = (False, d)" by (auto simp: cancel_def)
next
  fix b
  assume b: "findByRefId d r = Some b"
    and s: "status b = BOOKED \<or> status b = DEPARTED \<or> status b = CANCELLED"
  from s have ns: "status b \<noteq> ARRIVED" "status b \<noteq> DELIVERED" by auto
  note c = cancel_allowed [OF b ns, of now]
  from b have rb: "ref_id b = r" by (auto dest: findByRefId_Some)
  show "fst (cancel r now d)" by (simp add: c)
  show "findByRefId (snd (cancel r now d)) r = Some (b\<lparr>status := CANCELLED, updated_at := now\<rparr>)"
    using b rb by (simp add: c with_event_def findByRefId_def find_map_same_key [where g = ref_id])
  show "timeline_events (snd (cancel r now d)) =
           timeline_events d @
             [\<lparr>e_id = seq_timeline_events d + 1, booking_id = b_id b,
               event_type = EV_CANCELLED, location = None, flight_info = None,
               e_notes = Some ''Booking cancelled by user'',
               timeline_event.created_at = now\<rparr>]"
    by (simp add: c with_event_def)
  fix r'
  assume "r' \<noteq> r"
  show "findByRefId (snd (cancel r now d)) r' = findByRefId d r'"
  proof (cases "findByRefId d r'")
    case None
    then show ?thesis
      by (simp add: c with_event_def findByRefId_def find_map_same_key [where g = ref_id])
  next
    case (Some x)
    then have "ref_id x = r'" by (auto dest: findByRefId_Some)
    with Some \<open>r' \<noteq> r\<close> show ?thesis
      by (simp add: c with_event_def findByRefId_def find_map_same_key [where g = ref_id])
  qed
qed


lemma find_db_in: "findByRefId (db_in s) ''AC-19700101-0001'' = Some (bk1\<lparr>status := s\<rparr>)"
  by (simp add: findByRefId_def db_in_def bk1_def)

theorem cancel_rule_witness:
  "findByRefId (db_in DEPARTED) ''AC-19700101-0001'' = Some (bk1\<lparr>status := DEPARTED\<rparr>) \<and>
   fst (cancel ''AC-19700101-0001'' 5 (db_in DEPARTED)) \<and>
   map status (bookings (snd (cancel ''AC-19700101-0001'' 5 (db_in DEPARTED)))) = [CANCELLED] \<and>
   map event_type (timeline_events (snd (cancel ''AC-19700101-0001'' 5 (db_in DEPARTED)))) =
     [EV_CREATED, EV_CANCELLED] \<and>
   cancel ''AC-19700101-0001'' 5 (db_in ARRIVED) = (False, db_in ARRIVED) \<and>
   cancel ''AC-19700101-0002'' 5 (db_in BOOKED) = (False, db_in BOOKED)"
proof -
  note r = cancel_rule [of "db_in DEPARTED" "''AC-19700101-0001''" 5]
    cancel_rule [of "db_in ARRIVED" "''AC-19700101-0001''" 5]
    cancel_rule [of "db_in BOOKED" "''AC-19700101-0002''" 5]
  have none: "findByRefId (db_in BOOKED) ''AC-19700101-0002'' = None"
    by (simp add: findByRefId_def db_in_def bk1_def)
  have st: "map status (bookings (snd (cancel ''AC-19700101-0001'' 5 (db_in DEPARTED)))) = [CANCELLED]"
    by (simp add: cancel_def findByRefId_def updateStatus_def insert_timeline_event_def
        db_in_def bk1_def Let_def)
  from r none st show ?thesis
    by (simp add: find_db_in) (simp add: db_in_def ev1_def)
qed

text \<open>
  Claim C1 as it is stated says that cancelling a booking that is already \<open>CANCELLED\<close> fails.
  The guard of \<open>cancel\<close> refuses \<open>ARRIVED\<close> and \<open>DELIVERED\<close> only: the second
  cancellation returns true and appends a second \<open>CANCELLED\<close> event.
\<close>

theorem cancel_cancelled_counterexample:
  "fst (cancel ''AC-19700101-0001'' 5 (db_in BOOKED)) = True \<and>
   map status (bookings (snd (cancel ''AC-19700101-0001'' 5 (db_in BOOKED)))) = [CANCELLED] \<and>
   fst (cancel ''AC-19700101-0001'' 6 (snd (cancel ''AC-19700101-0001'' 5 (db_in BOOKED)))) = True \<and>
   map event_type (timeline_events
     (snd (cancel ''AC-19700101-0001'' 6 (snd (cancel ''AC-19700101-0001'' 5 (db_in BOOKED)))))) =
     [EV_CREATED, EV_CANCELLED, EV_CANCELLED]"
  by (simp add: cancel_def findByRefId_def updateStatus_def insert_timeline_event_def
        db_in_def bk1_def ev1_def Let_def)

lemma find_unique:
  "distinct (map g xs) \<Longrightarrow> x \<in> set xs \<Longrightarrow> g x = k \<Longrightarrow> find (\<lambda>y. g y = k) xs = Some x"
  by (induction xs) (auto simp: image_iff)

lemma findByRefId_None:
  "findByRefId d r = None \<longleftrightarrow> (\<forall>b \<in> set (bookings d). ref_id b \<noteq> r)"
  by (auto simp: findByRefId_def find_None_iff)

lemma findByRefId_unique:
  "wf_db d \<Longrightarrow> b \<in> set (bookings d) \<Longrightarrow> ref_id b = r \<Longrightarrow> findByRefId d r = Some b"
  by (simp add: wf_db_def findByRefId_def find_unique)

lemma updateStatus_miss:
  assumes "\<forall>b \<in> set (bookings d). \<not> (ref_id b = r \<and> status b = s)"
  shows "updateStatus r new (Some s) now d = (False, d)"
proof -
  have "filter (\<lambda>b. ref_id b = r \<and> status b = s) (bookings d) = []"
    using assms by (auto simp: filter_empty_conv)
  moreover have "map (\<lambda>b. if ref_id b = r \<and> status b = s
                     then b\<lparr>status := new, updated_at := now\<rparr> else b) (bookings d) = bookings d"
    using assms by (intro map_idI) auto
  ultimately show ?thesis by (simp add: updateStatus_def)
qed

lemma updateStatus_hit:
  assumes "b \<in> set (bookings d)" "ref_id b = r" "status b = s"
  shows "updateStatus r new (Some s) now d =
           (True, d\<lparr>bookings := conditional_update r s new now (bookings d)\<rparr>)"
proof -
  have "b \<in> set (filter (\<lambda>b. ref_id b = r \<and> status b = s) (bookings d))"
    using assms by simp
  then have "filter (\<lambda>b. ref_id b = r \<and> status b = s) (bookings d) \<noteq> []"
    by (metis empty_iff list.set(1))
  then show ?thesis by (simp add: updateStatus_def conditional_update_def)
qed

lemma findByRefId_after_update:
  "findByRefId (d\<lparr>bookings := conditional_update r s new now (bookings d)\<rparr>) r' =
     map_option (\<lambda>b. if ref_id b = r \<and> status b = s
                      then b\<lparr>status := new, updated_at := now\<rparr> else b) (findByRefId d r')"
  unfolding findByRefId_def conditional_update_def
  by (simp add: find_map_same_key [where g = ref_id])

lemma transition_step:
  assumes wf: "wf_db d"
  shows "(case updateStatus r new (Some s) now d of
            (ok, d1) \<Rightarrow>
              if \<not> ok then (False, d1)
              else case findByRefId d1 r of
                     None \<Rightarrow> (False, d1)
                   | Some b \<Rightarrow> (True, insert_timeline_event (b_id b) ty loc info (Some nts) now d1)) =
         (case findByRefId d r of
            None \<Rightarrow> (False, d)
          | Some b \<Rightarrow>
              if status b = s
              then (True, with_event (d\<lparr>bookings := conditional_update r s new now (bookings d)\<rparr>)
                            (b_id b) ty loc info nts now)
              else (False, d))"
proof (cases "findByRefId d r")
  case None
  then have "\<forall>b \<in> set (bookings d). \<not> (ref_id b = r \<and> status b = s)"
    by (simp add: findByRefId_None)
  from updateStatus_miss [OF this] None show ?thesis by simp
next
  case (Some b)
  then have b: "b \<in> set (bookings d)" "ref_id b = r" by (auto dest: findByRefId_Some)
  show ?thesis
  proof (cases "status b = s")
    case True
    from updateStatus_hit [OF b True] Some True b show ?thesis
      by (simp add: findByRefId_after_update insert_timeline_event_def with_event_def Let_def)
  next
    case False
    have "\<forall>x \<in> set (bookings d). \<not> (ref_id x = r \<and> status x = s)"
    proof
      fix x assume x: "x \<in> set (bookings d)"
      show "\<not> (ref_id x = r \<and> status x = s)"
      proof
        assume "ref_id x = r \<and> status x = s"
        with findByRefId_unique [OF wf x] Some have "x = b" by simp
        with \<open>ref_id x = r \<and> status x = s\<close> False show False by simp
      qed
    qed
    from updateStatus_miss [OF this] Some False show ?thesis by simp
  qed
qed

text \<open>
  In a store that satisfies its key constraints, \<open>depart\<close> (respectively \<open>arrive\<close>) is
  one conditional update of the bookings: the row whose reference id matches and whose
  status is \<open>BOOKED\<close> (resp. \<open>DEPARTED\<close>) gets status \<open>DEPARTED\<close> (resp. \<open>ARRIVED\<close>),
  every other row stays as it is. When no row matches, because the booking is missing or
  in another status, the result is false, no error is raised and the whole store,
  bookings and timeline, is as it was. When a row matches, the result is true and
  exactly one \<open>DEPARTED\<close> (resp. \<open>ARRIVED\<close>) event of that booking is appended, with the
  given location; its \<^verbatim>\<open>flight_info\<close> column holds what the driver has bound.
\<close>

lemma depart_arrive_transition:
  assumes "wf_db d"
  shows "depart r loc info now d =
           (case findByRefId d r of
              None \<Rightarrow> (False, d)
            | Some b \<Rightarrow>
                if status b = BOOKED
                then (True, with_event
                       (d\<lparr>bookings := conditional_update r BOOKED DEPARTED now (bookings d)\<rparr>)
                       (b_id b) EV_DEPARTED (Some loc) (map_option bind_text (or_null info))
                       (''Cargo departed from '' @ loc) now)
                else (False, d))"
    and "arrive r loc info now d =
           (case findByRefId d r of
              None \<Rightarrow> (False, d)
            | Some b \<Rightarrow>
                if status b = DEPARTED
                then (True, with_event
                       (d\<lparr>bookings := conditional_update r DEPARTED ARRIVED now (bookings d)\<rparr>)
                       (b_id b) EV_ARRIVED (Some loc) (map_option bind_text (or_null info))
                       (''Cargo arrived at '' @ loc) now)
                else (False, d))"
  unfolding depart_def arrive_def by (simp_all only: transition_step [OF assms])

lemma stored_payload:
  "map_option bind_text (or_null None) = None"
  "map_option bind_text (or_null (Some (Text s))) = (if s = [] then None else Some s)"
  "map_option bind_text (or_null (Some (Object kvs))) = Some ''[object Object]''"
  by (simp_all add: or_null_def bind_text_def)

text \<open>
  Claim C5 does not hold of the code where it says that the event carries the flight-info
  payload. A request \<^verbatim>\<open>PUT /bookings/AC-19700101-0001/depart\<close> with the body
  \<^verbatim>\<open>{"location": "DEL", "flight_info": {"flight": "AI101"}}\<close> on a booked cargo
  succeeds: the conditional update is made and one \<open>DEPARTED\<close> event with the location
  is appended. But the \<^verbatim>\<open>flight_info\<close> column of the event holds the text
  \<^verbatim>\<open>[object Object]\<close>, and a request with another payload leaves the very same store, so
  that the payload cannot be read back from the event; \<open>arrive\<close> does the same. The
  payload is bound without the \<^verbatim>\<open>JSON.stringify\<close> that \<^verbatim>\<open>addTimelineEvent\<close> of the
  timeline service applies to it, while the column is meant to hold a JSON string.
\<close>

theorem depart_arrive_payload_not_stored:
  "depart ''AC-19700101-0001'' ''DEL'' (Some (Object [(''flight'', JStr ''AI101'')])) 5
       (db_in BOOKED) =
     (True, with_event
        ((db_in BOOKED)\<lparr>bookings := conditional_update ''AC-19700101-0001'' BOOKED DEPARTED 5
                                      (bookings (db_in BOOKED))\<rparr>)
        1 EV_DEPARTED (Some ''DEL'') (Some ''[object Object]'') ''Cargo departed from DEL'' 5) \<and>
   map flight_info (timeline_events
     (snd (depart ''AC-19700101-0001'' ''DEL'' (Some (Object [(''flight'', JStr ''AI101'')])) 5
             (db_in BOOKED)))) = [None, Some ''[object Object]''] \<and>
   depart ''AC-19700101-0001'' ''DEL'' (Some (Object [(''flight'', JStr ''AI202'')])) 5
       (db_in BOOKED) =
     depart ''AC-19700101-0001'' ''DEL'' (Some (Object [(''flight'', JStr ''AI101'')])) 5
       (db_in BOOKED) \<and>
   fst (arrive ''AC-19700101-0001'' ''BOM'' (Some (Object [(''gate'', JNum 4)])) 9
          (db_in DEPARTED)) \<and>
   map status (bookings
     (snd (arrive ''AC-19700101-0001'' ''BOM'' (Some (Object [(''gate'', JNum 4)])) 9
             (db_in DEPARTED)))) = [ARRIVED] \<and>
   map flight_info (timeline_events
     (snd (arrive ''AC-19700101-0001'' ''BOM'' (Some (Object [(''gate'', JNum 4)])) 9
             (db_in DEPARTED)))) = [None, Some ''[object Object]'']"
  by code_simp

lemma validate_Valid_length:
  "validateFlightSequence d ids = Valid \<Longrightarrow>
     ids \<noteq> [] \<and> length (getFlightDetails d ids) = length ids"
  by (auto simp: validateFlightSequence_def Let_def split: if_splits)

lemma unresolved_all:
  assumes "\<forall>i \<in> set ids. \<not> resolves d i"
  shows "getFlightDetails d ids = []"
proof -
  have "f_id ` set (getFlightDetails d ids) = {}"
    using assms by (simp add: getFlightDetails_ids)
  then show ?thesis by simp
qed

lemma validate_unresolved_all:
  assumes "\<forall>i \<in> set ids. \<not> resolves d i"
  shows "validateFlightSequence d ids =
           Invalid (if ids = [] then NoFlightsProvided else SomeFlightsNotFound)"
  by (simp add: validateFlightSequence_def unresolved_all [OF assms])

lemma created_not_rejected:
  "\<not> rejected (fst (case c of
       (Inl e, d1) \<Rightarrow> (InternalServerError, d1)
     | (Inr b, d1) \<Rightarrow>
         (case getBookingHistory P d1 (ref_id b) of
            None \<Rightarrow> (Created b [] [], d1)
          | Some x \<Rightarrow> (Created b (flight_details x) (timeline x), d1))))"
  by (simp split: prod.splits sum.splits option.splits)

lemma created_not_InvalidFlights:
  "fst (case c of
       (Inl e, d1) \<Rightarrow> (InternalServerError, d1)
     | (Inr b, d1) \<Rightarrow>
         (case getBookingHistory P d1 (ref_id b) of
            None \<Rightarrow> (Created b [] [], d1)
          | Some x \<Rightarrow> (Created b (flight_details x) (timeline x), d1))) \<noteq> InvalidFlights"
  by (simp split: prod.splits sum.splits option.splits)

section \<open>Booking creation\<close>

text \<open>
  Claim C4. The checks of \<open>createBooking\<close> for an authenticated request, in their order:
  equal origin and destination give \<open>InvalidRoute\<close>; otherwise a failure of
  \<open>validateFlightSequence\<close> is passed on; otherwise an empty list of resolved flights
  gives \<open>InvalidFlights\<close>; otherwise a first flight that does not start at the requested
  origin or a last flight that does not end at the requested destination gives
  \<open>RouteMismatch\<close>. Each of these answers returns the store as it was: for every request
  a rejecting answer leaves the store unchanged, and any other answer means that every
  check has passed, so all validation precedes the first write. The third check is
  there but is never met: a sequence that has validated has resolved as many flights as
  it has ids, at least one, so the answer is never \<open>InvalidFlights\<close>; a request none of
  whose flight ids resolves is rejected one check earlier, with the failure of the
  validation (no flights provided for an empty list, some flights not found otherwise).
\<close>

theorem createBooking_validation:
  "(let ids = CreateBookingRequest.flight_ids req;
        orig = CreateBookingRequest.origin req;
        dest = CreateBookingRequest.destination req;
        flights = getFlightDetails d ids;
        res = createBooking JSON_parse (Some u) req today now d
    in (orig = dest \<longrightarrow> res = (InvalidRoute, d)) \<and>
       (orig \<noteq> dest \<longrightarrow>
          (\<forall>e. validateFlightSequence d ids = Invalid e \<longrightarrow>
               res = (InvalidFlightSequence e, d)) \<and>
          ((\<forall>i \<in> set ids. \<not> resolves d i) \<longrightarrow>
               res = (InvalidFlightSequence
                        (if ids = [] then NoFlightsProvided else SomeFlightsNotFound), d)) \<and>
          (validateFlightSequence d ids = Valid \<longrightarrow>
               (flights = [] \<longrightarrow> res = (InvalidFlights, d)) \<and>
               (flights \<noteq> [] \<and>
                (flight.origin (hd flights) \<noteq> orig \<or> flight.destination (last flights) \<noteq> dest)
                  \<longrightarrow> res = (RouteMismatch, d)) \<and>
               flights \<noteq> [])) \<and>
       (\<not> rejected (fst res) \<longrightarrow>
          orig \<noteq> dest \<and> validateFlightSequence d ids = Valid \<and>
          flight.origin (hd flights) = orig \<and> flight.destination (last flights) = dest)) \<and>
   fst (createBooking JSON_parse user req today now d) \<noteq> InvalidFlights \<and>
   (rejected (fst (createBooking JSON_parse user req today now d)) \<longrightarrow>
      snd (createBooking JSON_parse user req today now d) = d)"
proof -
  let ?ids = "CreateBookingRequest.flight_ids req"
  let ?flights = "getFlightDetails d ?ids"
  have nonempty: "validateFlightSequence d ?ids = Valid \<Longrightarrow> ?flights \<noteq> []"
    using validate_Valid_length [of d ?ids] by auto
  have a: "CreateBookingRequest.origin req = CreateBookingRequest.destination req \<Longrightarrow>
      createBooking JSON_parse (Some u) req today now d = (InvalidRoute, d)"
    by (simp add: createBooking_def)
  have b: "\<And>e. CreateBookingRequest.origin req \<noteq> CreateBookingRequest.destination req \<Longrightarrow>
      validateFlightSequence d ?ids = Invalid e \<Longrightarrow>
      createBooking JSON_parse (Some u) req today now d = (InvalidFlightSequence e, d)"
    by (simp add: createBooking_def)
  have c: "CreateBookingRequest.origin req \<noteq> CreateBookingRequest.destination req \<Longrightarrow>
      validateFlightSequence d ?ids = Valid \<Longrightarrow>
      flight.origin (hd ?flights) \<noteq> CreateBookingRequest.origin req \<or>
      flight.destination (last ?flights) \<noteq> CreateBookingRequest.destination req \<Longrightarrow>
      createBooking JSON_parse (Some u) req today now d = (RouteMismatch, d)"
    using nonempty by (simp add: createBooking_def Let_def)
  have e: "\<not> rejected (fst (createBooking JSON_parse (Some u) req today now d)) \<Longrightarrow>
      CreateBookingRequest.origin req \<noteq> CreateBookingRequest.destination req \<and>
      validateFlightSequence d ?ids = Valid \<and>
      flight.origin (hd ?flights) = CreateBookingRequest.origin req \<and>
      flight.destination (last ?flights) = CreateBookingRequest.destination req"
  proof -
    assume n: "\<not> rejected (fst (createBooking JSON_parse (Some u) req today now d))"
    have 1: "CreateBookingRequest.origin req \<noteq> CreateBookingRequest.destination req"
      using n a by auto
    have 2: "validateFlightSequence d ?ids = Valid"
    proof (cases "validateFlightSequence d ?ids")
      case Valid
      then show ?thesis .
    next
      case (Invalid x)
      with b [OF 1 Invalid] n show ?thesis by simp
    qed
    have 3: "\<not> (flight.origin (hd ?flights) \<noteq> CreateBookingRequest.origin req \<or>
      flight.destination (last ?flights) \<noteq> CreateBookingRequest.destination req)"
    proof
      assume "flight.origin (hd ?flights) \<noteq> CreateBookingRequest.origin req \<or>
        flight.destination (last ?flights) \<noteq> CreateBookingRequest.destination req"
      from c [OF 1 2 this] n show False by simp
    qed
    from 1 2 3 show ?thesis by simp
  qed
  have f: "fst (createBooking JSON_parse user req today now d) \<noteq> InvalidFlights"
  proof (cases user)
    case None
    then show ?thesis by (simp add: createBooking_def)
  next
    case (Some v)
    have "fst (createBooking JSON_parse (Some v) req today now d) \<noteq> InvalidFlights"
    proof (cases "CreateBookingRequest.origin req = CreateBookingRequest.destination req")
      case True
      then show ?thesis by (simp add: createBooking_def)
    next
      case ne: False
      show ?thesis
      proof (cases "validateFlightSequence d ?ids")
        case (Invalid x)
        with ne show ?thesis by (simp add: createBooking_def)
      next
        case Valid
        with ne nonempty [OF Valid] show ?thesis
          by (simp add: createBooking_def Let_def created_not_InvalidFlights)
      qed
    qed
    with Some show ?thesis by simp
  qed
  have g: "rejected (fst (createBooking JSON_parse user req today now d)) \<Longrightarrow>
      snd (createBooking JSON_parse user req today now d) = d"
  proof (cases user)
    case None
    then show ?thesis by (simp add: createBooking_def)
  next
    case (Some v)
    assume r: "rejected (fst (createBooking JSON_parse user req today now d))"
    show ?thesis
    proof (cases "CreateBookingRequest.origin req = CreateBookingRequest.destination req")
      case True
      with Some show ?thesis by (simp add: createBooking_def)
    next
      case ne: False
      show ?thesis
      proof (cases "validateFlightSequence d ?ids")
        case (Invalid x)
        with ne Some show ?thesis by (simp add: createBooking_def)
      next
        case Valid
        show ?thesis
        proof (cases "flight.origin (hd ?flights) \<noteq> CreateBookingRequest.origin req \<or>
            flight.destination (last ?flights) \<noteq> CreateBookingRequest.destination req")
          case True
          with ne Some Valid nonempty [OF Valid] show ?thesis
            by (simp add: createBooking_def Let_def)
        next
          case False
          with ne Some Valid nonempty [OF Valid] r show ?thesis
            by (simp add: createBooking_def Let_def created_not_rejected)
        qed
      qed
    qed
  qed
  show ?thesis
    unfolding Let_def
  proof (intro conjI impI allI)
    assume "CreateBookingRequest.origin req \<noteq> CreateBookingRequest.destination req"
      and "\<forall>i \<in> set ?ids. \<not> resolves d i"
    then show "createBooking JSON_parse (Some u) req today now d =
        (InvalidFlightSequence (if ?ids = [] then NoFlightsProvided else SomeFlightsNotFound), d)"
      using b validate_unresolved_all [of ?ids d] by simp
  qed (use a b c e f g nonempty in blast)+
qed

text \<open>
  The four rejections at work, and a request that passes every check: user 7 books DEL to
  BLR on flights 1 and 2 and gets the first reference id of the day.
\<close>

theorem createBooking_validation_witness:
  "createBooking parse_12 (Some 7) (req_to ''DEL'' [1]) noon 0 db0 = (InvalidRoute, db0) \<and>
   createBooking parse_12 (Some 7) (req_to ''BLR'' [1, 3]) noon 0 db0 =
     (InvalidFlightSequence InsufficientConnection, db0) \<and>
   createBooking parse_12 (Some 7) (req_to ''BLR'' [9]) noon 0 db0 =
     (InvalidFlightSequence SomeFlightsNotFound, db0) \<and>
   createBooking parse_12 (Some 7) (req_to ''BLR'' [1]) noon 0 db0 = (RouteMismatch, db0) \<and>
   \<not> rejected (fst (createBooking parse_12 (Some 7) (req_to ''BLR'' [1, 2]) noon 0 db0)) \<and>
   validateFlightSequence db0 [1, 2] = Valid \<and>
   map ref_id (bookings (snd (createBooking parse_12 (Some 7) (req_to ''BLR'' [1, 2]) noon 0 db0)))
     = [''AC-20240823-0001'']"
proof -
  have v13: "validateFlightSequence db0 [1, 3] = Invalid InsufficientConnection"
    by (simp add: validateFlightSequence_def minimumConnectionTime_def maxConnectionTime_def
        db0_defs)
  have v1: "validateFlightSequence db0 [1] = Valid"
    by (simp add: validateFlightSequence_def db0_defs)
  have f1: "flight.destination (last (getFlightDetails db0 [1])) = ''BOM''"
    by (simp add: db0_defs)
  have ok: "\<not> rejected (fst (createBooking parse_12 (Some 7) (req_to ''BLR'' [1, 2]) noon 0 db0))"
    by code_simp
  have ref: "map ref_id (bookings (snd (createBooking parse_12 (Some 7) (req_to ''BLR'' [1, 2])
      noon 0 db0))) = [''AC-20240823-0001'']"
    by code_simp
  have "createBooking parse_12 (Some 7) (req_to ''DEL'' [1]) noon 0 db0 = (InvalidRoute, db0)"
    using createBooking_validation [where req = "req_to ''DEL'' [1]" and d = db0
        and JSON_parse = parse_12 and u = 7 and today = noon and now = 0 and user = "Some 7"]
    by (simp add: Let_def req_to_def)
  moreover have "createBooking parse_12 (Some 7) (req_to ''BLR'' [1, 3]) noon 0 db0 =
      (InvalidFlightSequence InsufficientConnection, db0)"
    using createBooking_validation [where req = "req_to ''BLR'' [1, 3]" and d = db0
        and JSON_parse = parse_12 and u = 7 and today = noon and now = 0 and user = "Some 7"] v13
    by (simp add: Let_def req_to_def)
  moreover have "createBooking parse_12 (Some 7) (req_to ''BLR'' [9]) noon 0 db0 =
      (InvalidFlightSequence SomeFlightsNotFound, db0)"
    using createBooking_validation [where req = "req_to ''BLR'' [9]" and d = db0
        and JSON_parse = parse_12 and u = 7 and today = noon and now = 0 and user = "Some 7"]
      resolves_db0
    by (simp add: Let_def req_to_def)
  moreover have "createBooking parse_12 (Some 7) (req_to ''BLR'' [1]) noon 0 db0 =
      (RouteMismatch, db0)"
    using createBooking_validation [where req = "req_to ''BLR'' [1]" and d = db0
        and JSON_parse = parse_12 and u = 7 and today = noon and now = 0 and user = "Some 7"]
      v1 f1
    by (simp add: Let_def req_to_def)
  moreover have "validateFlightSequence db0 [1, 2] = Valid"
  proof -
    have "validateFlightSequence db0 (CreateBookingRequest.flight_ids (req_to ''BLR'' [1, 2])) = Valid"
      using createBooking_validation [where req = "req_to ''BLR'' [1, 2]" and d = db0
          and JSON_parse = parse_12 and u = 7 and today = noon and now = 0 and user = "Some 7"]
        ok
      unfolding Let_def by blast
    then show ?thesis by (simp add: req_to_def)
  qed
  ultimately show ?thesis using ok ref by simp
qed

section \<open>Reference ids\<close>

lemma digit_char_is_digit: "is_digit (digit_char n)"
proof -
  have "n mod 10 < length ''0123456789''" by simp
  then show ?thesis
    unfolding is_digit_def digit_char_def by (rule nth_mem)
qed

lemma digit_value_digit_char: "digit_value (digit_char n) = n mod 10"
proof -
  have "\<forall>k < 10. digit_value (''0123456789'' ! k) = k"
    by (simp add: digit_value_def All_less_Suc eval_nat_numeral)
  then show ?thesis by (simp add: digit_char_def)
qed

lemma string_of_nat_digits: "list_all is_digit (string_of_nat n)"
proof (induction n rule: string_of_nat.induct)
  case (1 n)
  show ?case
  proof (cases "n < 10")
    case True
    then show ?thesis
      by (subst string_of_nat.simps) (simp add: digit_char_is_digit)
  next
    case False
    with 1 show ?thesis
      by (subst string_of_nat.simps) (simp add: digit_char_is_digit)
  qed
qed

lemma string_of_nat_value: "decimal_value (string_of_nat n) = n"
proof (induction n rule: string_of_nat.induct)
  case (1 n)
  show ?case
  proof (cases "n < 10")
    case True
    then show ?thesis
      by (subst string_of_nat.simps) (simp add: decimal_value_def digit_value_digit_char)
  next
    case False
    with 1 have "decimal_value (string_of_nat (n div 10)) = n div 10" by simp
    with False show ?thesis
      by (subst string_of_nat.simps) (simp add: decimal_value_def digit_value_digit_char)
  qed
qed

lemma string_of_nat_length_le:
  "n < 10 ^ k \<Longrightarrow> 0 < k \<Longrightarrow> length (string_of_nat n) \<le> k"
proof (induction n arbitrary: k rule: string_of_nat.induct)
  case (1 n)
  show ?case
  proof (cases "n < 10")
    case True
    with 1(3) show ?thesis
      by (subst string_of_nat.simps) simp
  next
    case False
    from 1(3) obtain j where k: "k = Suc j" by (cases k) auto
    from False 1(2) k have "0 < j" by (cases j) auto
    moreover from 1(2) k have "n div 10 < 10 ^ j"
      by (simp add: less_mult_imp_div_less mult.commute)
    ultimately have "length (string_of_nat (n div 10)) \<le> j"
      using 1(1) [OF False] by simp
    with False k show ?thesis
      by (subst string_of_nat.simps) simp
  qed
qed

lemma string_of_nat_length_gt:
  "10 ^ k \<le> n \<Longrightarrow> k < length (string_of_nat n)"
proof (induction n arbitrary: k rule: string_of_nat.induct)
  case (1 n)
  show ?case
  proof (cases "n < 10")
    case True
    have "k = 0"
    proof (cases k)
      case (Suc j)
      have "(1::nat) \<le> 10 ^ j" by simp
      with 1(2) True Suc show ?thesis by simp
    qed simp
    with True show ?thesis
      by (subst string_of_nat.simps) simp
  next
    case False
    show ?thesis
    proof (cases k)
      case 0
      with False show ?thesis
        by (subst string_of_nat.simps) simp
    next
      case (Suc j)
      with 1(2) have "10 ^ j \<le> n div 10"
        by (simp add: less_eq_div_iff_mult_less_eq mult.commute)
      then have "j < length (string_of_nat (n div 10))"
        using 1(1) [OF False] by simp
      with False Suc show ?thesis
        by (subst string_of_nat.simps) simp
    qed
  qed
qed

lemma decimal_value_zeros: "decimal_value (replicate m CHR ''0'' @ s) = decimal_value s"
proof -
  have "foldl (\<lambda>n c. 10 * n + digit_value c) 0 (replicate m CHR ''0'') = 0"
    by (induction m) (simp_all add: digit_value_def)
  then show ?thesis by (simp add: decimal_value_def)
qed

lemma is_digit_not_dash: "is_digit c \<Longrightarrow> c \<noteq> CHR ''-''"
  by (auto simp: is_digit_def)

lemma filter_dash_digits:
  "list_all is_digit s \<Longrightarrow> filter (\<lambda>c. c \<noteq> CHR ''-'') s = s"
  by (simp add: filter_id_conv list_all_iff is_digit_not_dash)

lemma map_of_bump:
  "map_of (map (\<lambda>(k, v). if k = dk then (k, v + 1) else (k, v)) xs) dk =
     map_option (\<lambda>v. v + (1::int)) (map_of xs dk)"
  by (induction xs) auto

lemma generateRefId_next:
  assumes "dateKey_of t = dk" and "select_counter dk d = Some c"
  shows "fst (generateRefId t d) = Inr (format_ref_id dk (c + 1))"
    and "select_counter dk (snd (generateRefId t d)) = Some (c + 1)"
  using assms
  by (simp_all add: generateRefId_def write_counter_def select_counter_def map_of_bump)

lemma generateRefId_first:
  assumes "dateKey_of t = dk" and "select_counter dk d = None"
  shows "fst (generateRefId t d) = Inr (format_ref_id dk 1)"
    and "select_counter dk (snd (generateRefId t d)) = Some 1"
proof -
  from assms(2) have "dk \<notin> fst ` set (booking_counters d)"
    by (simp add: select_counter_def map_of_eq_None_iff)
  with assms show "fst (generateRefId t d) = Inr (format_ref_id dk 1)"
    and "select_counter dk (snd (generateRefId t d)) = Some 1"
    by (simp_all add: generateRefId_def write_counter_def select_counter_def map_add_def)
qed

lemma generate_all_from:
  assumes "\<forall>t \<in> set todays. dateKey_of t = dk" and "select_counter dk d = Some c"
  shows "length (fst (generate_all todays d)) = length todays \<and>
         (\<forall>i < length todays.
            fst (generate_all todays d) ! i = Inr (format_ref_id dk (c + 1 + int i)))"
  using assms
proof (induction todays arbitrary: d c)
  case Nil
  then show ?case by simp
next
  case (Cons t rest)
  let ?d1 = "snd (generateRefId t d)"
  from Cons.prems have t: "dateKey_of t = dk" by simp
  note g = generateRefId_next [OF t Cons.prems(2)]
  from Cons.prems(1) have "\<forall>t \<in> set rest. dateKey_of t = dk" by simp
  from Cons.IH [OF this g(2)]
  have IH: "length (fst (generate_all rest ?d1)) = length rest"
    "\<And>i. i < length rest \<Longrightarrow>
       fst (generate_all rest ?d1) ! i = Inr (format_ref_id dk (c + 1 + 1 + int i))"
    by simp_all
  have eq: "fst (generate_all (t # rest) d) =
      fst (generateRefId t d) # fst (generate_all rest ?d1)"
    by (simp split: prod.splits)
  show ?case
  proof (intro conjI allI impI)
    show "length (fst (generate_all (t # rest) d)) = length (t # rest)"
      unfolding eq by (simp add: IH(1))
    fix i assume "i < length (t # rest)"
    then show "fst (generate_all (t # rest) d) ! i = Inr (format_ref_id dk (c + 1 + int i))"
      using g(1) IH(2) unfolding eq by (cases i) (simp_all add: add.assoc)
  qed
qed

lemma generate_all_first_day:
  assumes "\<forall>t \<in> set todays. dateKey_of t = dk" and "select_counter dk d = None"
  shows "length (fst (generate_all todays d)) = length todays \<and>
         (\<forall>i < length todays.
            fst (generate_all todays d) ! i = Inr (format_ref_id dk (1 + int i)))"
proof (cases todays)
  case Nil
  then show ?thesis by simp
next
  case (Cons t rest)
  let ?d1 = "snd (generateRefId t d)"
  from Cons assms have t: "dateKey_of t = dk" by simp
  note g = generateRefId_first [OF t assms(2)]
  from Cons assms(1) have "\<forall>t \<in> set rest. dateKey_of t = dk" by simp
  from generate_all_from [OF this g(2)]
  have R: "length (fst (generate_all rest ?d1)) = length rest"
    "\<And>i. i < length rest \<Longrightarrow>
       fst (generate_all rest ?d1) ! i = Inr (format_ref_id dk (1 + 1 + int i))"
    by simp_all
  have eq: "fst (generate_all (t # rest) d) =
      fst (generateRefId t d) # fst (generate_all rest ?d1)"
    by (simp split: prod.splits)
  show ?thesis
    unfolding Cons
  proof (intro conjI allI impI)
    show "length (fst (generate_all (t # rest) d)) = length (t # rest)"
      unfolding eq by (simp add: R(1))
    fix i assume "i < length (t # rest)"
    then show "fst (generate_all (t # rest) d) ! i = Inr (format_ref_id dk (1 + int i))"
      using g(1) R(2) unfolding eq by (cases i) (simp_all add: add.assoc)
  qed
qed

lemma pad_num_digits: "list_all is_digit (pad_num w n)"
proof -
  have "list_all is_digit (replicate m CHR ''0'')" for m
    by (simp add: list_all_iff is_digit_def)
  then show ?thesis
    by (simp add: pad_num_def padStart_def string_of_nat_digits)
qed

lemma pad_num_value: "decimal_value (pad_num w n) = n"
  by (simp add: pad_num_def padStart_def decimal_value_zeros string_of_nat_value)

lemma pad_num_length: "n < 10 ^ w \<Longrightarrow> 0 < w \<Longrightarrow> length (pad_num w n) = w"
  using string_of_nat_length_le [of n w] by (simp add: pad_num_def padStart_def)

lemma pad_num_length_gt: "10 ^ w \<le> n \<Longrightarrow> w < length (pad_num w n)"
  using string_of_nat_length_gt [of w n] by (simp add: pad_num_def padStart_def)

lemma is_digit_not_T: "is_digit c \<Longrightarrow> c \<noteq> CHR ''T''"
  by (auto simp: is_digit_def)

lemma takeWhile_before_T:
  "list_all (\<lambda>c. c \<noteq> CHR ''T'') a \<Longrightarrow> takeWhile (\<lambda>c. c \<noteq> CHR ''T'') (a @ CHR ''T'' # b) = a"
  by (induction a) simp_all

lemma no_T_digits: "list_all is_digit s \<Longrightarrow> list_all (\<lambda>c. c \<noteq> CHR ''T'') s"
  by (simp add: list_all_iff is_digit_not_T)

lemma dateKey_toISOString:
  assumes "0 \<le> utc_year t" and "utc_year t \<le> 9999"
  shows "dateKey_of (toISOString t) =
           pad_num 4 (nat (utc_year t)) @ ''-'' @ pad_num 2 (utc_month t) @ ''-'' @
           pad_num 2 (utc_day t)"
proof -
  let ?a = "pad_num 4 (nat (utc_year t)) @ ''-'' @ pad_num 2 (utc_month t) @ ''-'' @
      pad_num 2 (utc_day t)"
  let ?b = "pad_num 2 (utc_hours t) @ '':'' @ pad_num 2 (utc_minutes t) @ '':'' @
      pad_num 2 (utc_seconds t) @ ''.'' @ pad_num 3 (utc_ms t) @ ''Z''"
  from assms have "toISOString t = ?a @ CHR ''T'' # ?b"
    by (simp add: toISOString_def)
  moreover have "list_all (\<lambda>c. c \<noteq> CHR ''T'') ?a"
    by (simp add: no_T_digits pad_num_digits)
  ultimately show ?thesis
    unfolding dateKey_of_def by (simp only: takeWhile_before_T)
qed

lemma format_ref_id_date:
  "format_ref_id (pad_num 4 y @ ''-'' @ pad_num 2 m @ ''-'' @ pad_num 2 dd) (int k) =
     ''AC-'' @ pad_num 4 y @ pad_num 2 m @ pad_num 2 dd @ ''-'' @ pad_num 4 k"
  by (simp add: format_ref_id_def string_of_int_def pad_num_def [symmetric, of 4 k]
      filter_dash_digits pad_num_digits)

lemma days_in_month_le: "days_in_month y m \<le> 31"
  by (simp add: days_in_month_def)

lemma ref_id_parts:
  fixes y m dd k :: nat
  assumes "y < 10000" and "m < 100" and "dd < 100"
  defines "r \<equiv> ''AC-'' @ pad_num 4 y @ pad_num 2 m @ pad_num 2 dd @ ''-'' @ pad_num 4 k"
  shows "take 3 r = ''AC-'' \<and> list_all is_digit (take 8 (drop 3 r)) \<and>
         decimal_value (take 4 (drop 3 r)) = y \<and>
         decimal_value (take 2 (drop 7 r)) = m \<and>
         decimal_value (take 2 (drop 9 r)) = dd \<and>
         take 1 (drop 11 r) = ''-'' \<and> list_all is_digit (drop 12 r) \<and>
         decimal_value (drop 12 r) = k \<and>
         (matches_ref_regex r \<longleftrightarrow> k < 10000)"
proof -
  from assms have len: "length (pad_num 4 y) = 4" "length (pad_num 2 m) = 2"
    "length (pad_num 2 dd) = 2"
    by (simp_all add: pad_num_length)
  have "length (pad_num 4 k) = 4 \<longleftrightarrow> k < 10000"
  proof (cases "k < 10000")
    case True
    then show ?thesis by (simp add: pad_num_length)
  next
    case False
    then have "10 ^ 4 \<le> k" by simp
    from pad_num_length_gt [OF this] False show ?thesis by simp
  qed
  with len show ?thesis
    unfolding r_def
    by (simp add: pad_num_digits pad_num_value matches_ref_regex_def)
qed

lemma generateRefId_counters:
  assumes "booking_counters d = booking_counters d'"
  shows "fst (generateRefId t d) = fst (generateRefId t d')"
    and "booking_counters (snd (generateRefId t d)) = booking_counters (snd (generateRefId t d'))"
  using assms
  by (simp_all add: generateRefId_def write_counter_def select_counter_def Let_def
      split: option.splits)

lemma insert_booking_counters:
  "insert_booking row d = Some (i, d') \<Longrightarrow> booking_counters d' = booking_counters d"
  by (auto simp: insert_booking_def Let_def split: if_splits)

lemma insert_timeline_event_counters:
  "booking_counters (insert_timeline_event bid ty loc info nts now d) = booking_counters d"
  by (simp add: insert_timeline_event_def Let_def)

lemma create_generate:
  shows "booking_counters (snd (create bd t now d)) = booking_counters (snd (generateRefId t d))"
    and "fst (create bd t now d) = Inr b \<Longrightarrow> fst (generateRefId t d) = Inr (ref_id b)"
proof -
  obtain g d1 where g: "generateRefId t d = (g, d1)" by (cases "generateRefId t d")
  show "booking_counters (snd (create bd t now d)) = booking_counters (snd (generateRefId t d))"
    unfolding create_def g
    by (auto simp: Let_def insert_timeline_event_counters dest: insert_booking_counters
        split: sum.splits option.splits prod.splits)
  show "fst (generateRefId t d) = Inr (ref_id b)" if "fst (create bd t now d) = Inr b"
    using that unfolding create_def g
    by (auto simp: Let_def dest: findByRefId_Some split: sum.splits option.splits prod.splits)
qed

lemma create_all_generate_all:
  assumes "booking_counters d = booking_counters d'"
    and "i < length calls" and "fst (create_all calls d) ! i = Inr b"
  shows "fst (generate_all (map (\<lambda>c. toISOString (fst (snd c))) calls) d') ! i = Inr (ref_id b)"
  using assms
proof (induction calls arbitrary: d d' i)
  case Nil
  then show ?case by simp
next
  case (Cons c rest)
  obtain bd t now where c: "c = (bd, t, now)" by (cases c)
  let ?d1 = "snd (create bd (toISOString t) now d)"
  let ?e1 = "snd (generateRefId (toISOString t) d')"
  have ceq: "fst (create_all (c # rest) d) =
      fst (create bd (toISOString t) now d) # fst (create_all rest ?d1)"
    unfolding c by (simp split: prod.splits)
  have geq: "fst (generate_all (map (\<lambda>c. toISOString (fst (snd c))) (c # rest)) d') =
      fst (generateRefId (toISOString t) d') #
      fst (generate_all (map (\<lambda>c. toISOString (fst (snd c))) rest) ?e1)"
    unfolding c by (simp split: prod.splits)
  have cnt: "booking_counters ?d1 = booking_counters ?e1"
    using create_generate(1) [of bd "toISOString t" now d]
      generateRefId_counters(2) [OF Cons.prems(1), of "toISOString t"] by simp
  show ?case
  proof (cases i)
    case 0
    with Cons.prems(3) have "fst (create bd (toISOString t) now d) = Inr b"
      unfolding ceq by simp
    from create_generate(2) [OF this] generateRefId_counters(1) [OF Cons.prems(1), of "toISOString t"]
    show ?thesis unfolding geq 0 by simp
  next
    case (Suc j)
    with Cons.prems(2) have j: "j < length rest" by simp
    from Cons.prems(3) have "fst (create_all rest ?d1) ! j = Inr b"
      unfolding ceq Suc by simp
    from Cons.IH [OF cnt j this] show ?thesis
      unfolding geq Suc by simp
  qed
qed

lemma generate_all_length: "length (fst (generate_all todays d)) = length todays"
proof (induction todays arbitrary: d)
  case Nil
  then show ?case by simp
next
  case (Cons t rest)
  have "fst (generate_all (t # rest) d) =
      fst (generateRefId t d) # fst (generate_all rest (snd (generateRefId t d)))"
    by (simp split: prod.splits)
  with Cons.IH show ?case by simp
qed

lemma reference_id_calls:
  assumes same_day: "\<forall>t \<in> set ts. is_instant t \<and> utc_year t = y \<and> utc_month t = m \<and> utc_day t = dd"
    and year: "0 \<le> y \<and> y \<le> 9999"
    and fresh: "\<forall>t \<in> set ts. select_counter (dateKey_of (toISOString t)) d = None"
    and k: "1 \<le> k \<and> k \<le> length ts"
  shows "fst (generate_all (map toISOString ts) d) ! (k - 1) =
           Inr (''AC-'' @ pad_num 4 (nat y) @ pad_num 2 m @ pad_num 2 dd @ ''-'' @ pad_num 4 k)"
    and "m < 100" and "dd < 100"
proof -
  let ?dk = "pad_num 4 (nat y) @ ''-'' @ pad_num 2 m @ ''-'' @ pad_num 2 dd"
  from k obtain t where t: "t \<in> set ts" by (cases ts) auto
  have key: "dateKey_of (toISOString t) = ?dk" if "t \<in> set ts" for t
    using dateKey_toISOString [of t] same_day year that by simp
  from same_day t have "is_instant t" "utc_month t = m" "utc_day t = dd" "utc_year t = y"
    by simp_all
  then have "m \<le> 12" "dd \<le> days_in_month y m"
    by (simp_all add: is_instant_def)
  with days_in_month_le [of y m] show "m < 100" "dd < 100" by simp_all
  have 1: "\<forall>s \<in> set (map toISOString ts). dateKey_of s = ?dk"
    using key by auto
  from fresh t key [OF t] have 2: "select_counter ?dk d = None" by fastforce
  from k have "k - 1 < length (map toISOString ts)" by auto
  with generate_all_first_day [OF 1 2]
  have "fst (generate_all (map toISOString ts) d) ! (k - 1) =
      Inr (format_ref_id ?dk (1 + int (k - 1)))"
    by blast
  moreover from k have "1 + int (k - 1) = int k" by auto
  ultimately show "fst (generate_all (map toISOString ts) d) ! (k - 1) =
      Inr (''AC-'' @ pad_num 4 (nat y) @ pad_num 2 m @ pad_num 2 dd @ ''-'' @ pad_num 4 k)"
    by (simp only: format_ref_id_date)
qed

text \<open>
  Claim C6, as the code has it. Let creations be requested one after the other at
  instants of one calendar date (in UTC) of a year from 0 to 9999, on a store that has
  no counter row for that date. Then the k-th call of \<open>generateRefId\<close> returns \<^verbatim>\<open>AC-\<close>,
  eight digits, \<^verbatim>\<open>-\<close> and the digits of the counter: the first four digits denote the
  year of the instant, the next two its month and the last two its day of the month,
  and the digits of the counter denote k, so that the counter starts at 1 and grows by
  1 per call. The id matches \<^verbatim>\<open>^AC-\d{8}-\d{4}$\<close> exactly while k is below 10000, where
  the counter is padded to four digits; from 10000 on it takes five. The k-th creation,
  when it makes a booking, gives it this id. (Counters are unbounded integers here; the
  precision of the source's numbers ends far beyond any day's bookings.)
\<close>

theorem reference_id_format:
  assumes same_day: "\<forall>t \<in> set ts. is_instant t \<and> utc_year t = y \<and> utc_month t = m \<and> utc_day t = dd"
    and year: "0 \<le> y \<and> y \<le> 9999"
    and fresh: "\<forall>t \<in> set ts. select_counter (dateKey_of (toISOString t)) d = None"
    and calls: "map (\<lambda>c. fst (snd c)) calls = ts"
  shows "length (fst (generate_all (map toISOString ts) d)) = length ts \<and>
         (\<forall>k. 1 \<le> k \<and> k \<le> length ts \<longrightarrow>
            (\<exists>r. fst (generate_all (map toISOString ts) d) ! (k - 1) = Inr r \<and>
                 take 3 r = ''AC-'' \<and> list_all is_digit (take 8 (drop 3 r)) \<and>
                 int (decimal_value (take 4 (drop 3 r))) = y \<and>
                 decimal_value (take 2 (drop 7 r)) = m \<and>
                 decimal_value (take 2 (drop 9 r)) = dd \<and>
                 take 1 (drop 11 r) = ''-'' \<and> list_all is_digit (drop 12 r) \<and>
                 decimal_value (drop 12 r) = k \<and>
                 (matches_ref_regex r \<longleftrightarrow> k < 10000) \<and>
                 (\<forall>b. fst (create_all calls d) ! (k - 1) = Inr b \<longrightarrow> ref_id b = r)))"
proof (intro conjI allI impI)
  show "length (fst (generate_all (map toISOString ts) d)) = length ts"
    by (simp add: generate_all_length)
  fix k assume k: "1 \<le> k \<and> k \<le> length ts"
  let ?r = "''AC-'' @ pad_num 4 (nat y) @ pad_num 2 m @ pad_num 2 dd @ ''-'' @ pad_num 4 k"
  note R = reference_id_calls [OF same_day year fresh k]
  from year have y: "nat y < 10000" by arith
  note P = ref_id_parts [OF y R(2) R(3), of k]
  have eq: "map toISOString ts = map (\<lambda>c. toISOString (fst (snd c))) calls"
    unfolding calls [symmetric] by (simp add: comp_def)
  have B: "\<forall>b. fst (create_all calls d) ! (k - 1) = Inr b \<longrightarrow> ref_id b = ?r"
  proof (intro allI impI)
    fix b assume b: "fst (create_all calls d) ! (k - 1) = Inr b"
    from k calls have "k - 1 < length calls" by auto
    from create_all_generate_all [OF refl this b] R(1) show "ref_id b = ?r"
      unfolding eq by simp
  qed
  from year P have Y: "int (decimal_value (take 4 (drop 3 ?r))) = y" by simp
  show "\<exists>r. fst (generate_all (map toISOString ts) d) ! (k - 1) = Inr r \<and>
      take 3 r = ''AC-'' \<and> list_all is_digit (take 8 (drop 3 r)) \<and>
      int (decimal_value (take 4 (drop 3 r))) = y \<and>
      decimal_value (take 2 (drop 7 r)) = m \<and>
      decimal_value (take 2 (drop 9 r)) = dd \<and>
      take 1 (drop 11 r) = ''-'' \<and> list_all is_digit (drop 12 r) \<and>
      decimal_value (drop 12 r) = k \<and>
      (matches_ref_regex r \<longleftrightarrow> k < 10000) \<and>
      (\<forall>b. fst (create_all calls d) ! (k - 1) = Inr b \<longrightarrow> ref_id b = r)"
    by (intro exI [of _ ?r] conjI) (use P R(1) B Y in blast)+
qed

text \<open>
  Two creations of user 7 on 23 August 2024, at noon and in the evening, on a store
  without bookings.
\<close>

theorem reference_id_format_witness:
  "is_instant noon_date \<and> is_instant evening_date \<and>
   utc_year noon_date = 2024 \<and> utc_month noon_date = 8 \<and> utc_day noon_date = 23 \<and>
   utc_year evening_date = 2024 \<and> utc_month evening_date = 8 \<and> utc_day evening_date = 23 \<and>
   select_counter (dateKey_of (toISOString noon_date)) db0 = None \<and>
   select_counter (dateKey_of (toISOString evening_date)) db0 = None \<and>
   fst (generate_all (map toISOString [noon_date, evening_date]) db0) ! 1 =
     Inr ''AC-20240823-0002'' \<and>
   decimal_value (take 4 (drop 3 ''AC-20240823-0002'')) = 2024 \<and>
   decimal_value (take 2 (drop 7 ''AC-20240823-0002'')) = 8 \<and>
   decimal_value (take 2 (drop 9 ''AC-20240823-0002'')) = 23 \<and>
   decimal_value (drop 12 ''AC-20240823-0002'') = 2 \<and>
   matches_ref_regex ''AC-20240823-0002'' \<and>
   map (map_sum id ref_id)
     (fst (create_all [(data_of 7, noon_date, 1), (data_of 7, evening_date, 2)] db0)) =
     [Inr ''AC-20240823-0001'', Inr ''AC-20240823-0002'']"
proof -
  let ?ts = "[noon_date, evening_date]"
  let ?calls = "[(data_of 7, noon_date, 1::nat), (data_of 7, evening_date, 2)]"
  have h1: "\<forall>t \<in> set ?ts. is_instant t \<and> utc_year t = 2024 \<and> utc_month t = 8 \<and> utc_day t = 23"
    by (simp add: noon_date_def evening_date_def is_instant_def days_in_month_def)
  have h2: "0 \<le> (2024::int) \<and> (2024::int) \<le> 9999" by simp
  have f1: "select_counter (dateKey_of (toISOString noon_date)) db0 = None"
    and f2: "select_counter (dateKey_of (toISOString evening_date)) db0 = None"
    by (simp_all add: select_counter_def db0_def)
  then have h3: "\<forall>t \<in> set ?ts. select_counter (dateKey_of (toISOString t)) db0 = None"
    by simp
  have h4: "map (\<lambda>c. fst (snd c)) ?calls = ?ts" by simp
  have k: "1 \<le> (2::nat) \<and> 2 \<le> length ?ts" by simp
  have g: "fst (generate_all (map toISOString ?ts) db0) ! 1 = Inr ''AC-20240823-0002''"
    by code_simp
  have c: "map (map_sum id ref_id) (fst (create_all ?calls db0)) =
      [Inr ''AC-20240823-0001'', Inr ''AC-20240823-0002'']"
    by code_simp
  from reference_id_format [OF h1 h2 h3 h4, THEN conjunct2, THEN spec, THEN mp, OF k]
  obtain r where r: "fst (generate_all (map toISOString ?ts) db0) ! (2 - 1) = Inr r"
    and y: "int (decimal_value (take 4 (drop 3 r))) = 2024"
    and m: "decimal_value (take 2 (drop 7 r)) = 8"
    and dd: "decimal_value (take 2 (drop 9 r)) = 23"
    and n: "decimal_value (drop 12 r) = 2"
    and x: "matches_ref_regex r \<longleftrightarrow> (2::nat) < 10000"
    by (elim exE conjE)
  from r g have "r = ''AC-20240823-0002''" by simp
  with y m dd n x have
    "decimal_value (take 4 (drop 3 ''AC-20240823-0002'')) = 2024"
    "decimal_value (take 2 (drop 7 ''AC-20240823-0002'')) = 8"
    "decimal_value (take 2 (drop 9 ''AC-20240823-0002'')) = 23"
    "decimal_value (drop 12 ''AC-20240823-0002'') = 2"
    "matches_ref_regex ''AC-20240823-0002''"
    by simp_all
  with h1 f1 f2 g c show ?thesis
    by (simp del: generate_all.simps create_all.simps)
qed

text \<open>
  Claim C6 as it is stated gives the k-th booking of the day the number k. A creation for
  user 8, who has no row in \<^verbatim>\<open>users\<close>, takes the number 1 and then fails on its
  \<^verbatim>\<open>INSERT\<close>; nothing gives the number back. The creation of user 7 that follows makes
  the first booking of the day, and its reference id carries the number 2.
\<close>

theorem first_booking_numbered_two_counterexample:
  "map (map_sum id ref_id)
     (fst (create_all [(data_of 8, noon_date, 1), (data_of 7, evening_date, 2)] db0)) =
     [Inl ConstraintViolation, Inr ''AC-20240823-0002''] \<and>
   map ref_id
     (bookings (snd (create_all [(data_of 8, noon_date, 1), (data_of 7, evening_date, 2)] db0))) =
     [''AC-20240823-0002''] \<and>
   decimal_value (drop 12 ''AC-20240823-0002'') = 2"
  by code_simp

text \<open>
  Claim C7 does not hold of the code. On a day whose counter stands at 1, two calls whose
  reads both precede the writes both return the counter value 2, hence the same
  reference id, while the row ends at 3. On a day without a counter row, the second of
  two such calls fails on its \<^verbatim>\<open>INSERT\<close>. The read and the write are separate awaited
  statements and nothing serializes them.
\<close>

theorem generateRefId_interleaved_duplicate:
  "select_counter ''1970-01-01'' (db_in BOOKED) = Some 1 \<and>
   fst (two_calls_interleaved ''1970-01-01T10:00:00.000Z'' ''1970-01-01T10:00:00.001Z''
          (db_in BOOKED)) =
     (Inr ''AC-19700101-0002'', Inr ''AC-19700101-0002'') \<and>
   booking_counters
     (snd (two_calls_interleaved ''1970-01-01T10:00:00.000Z'' ''1970-01-01T10:00:00.001Z''
             (db_in BOOKED))) = [(''1970-01-01'', 3)] \<and>
   fst (two_calls_interleaved noon noon db0) =
     (Inr ''AC-20240823-0001'', Inl FailedToGenerateReferenceId)"
  by code_simp

section \<open>Booking history\<close>

lemma db12_created:
  "snd (createBooking parse_12 (Some 7) (req_to ''BLR'' [1, 2]) noon 0 db0) = db12"
  by code_simp











section \<open>Transit search\<close>

lemma DATE_next_day: "DATE (t + 86400000) = DATE t + 1"
  by (simp add: DATE_def)

lemma join_airline_fields:
  assumes "r \<in> set (join_airline als f)"
  shows "flight.origin r = flight.origin f" "flight.destination r = flight.destination f"
    "departure_datetime r = departure_datetime f" "arrival_datetime r = arrival_datetime f"
  using assms by (auto simp: join_airline_def)

lemma first_leg_row:
  "r \<in> set (join_airline als f) \<Longrightarrow> first_leg orig dest date r = first_leg orig dest date f"
  by (simp add: first_leg_def join_airline_fields)

lemma second_leg_row:
  "r \<in> set (join_airline als s) \<Longrightarrow> second_leg dest f r = second_leg dest f s"
  by (simp add: second_leg_def join_airline_fields)

lemma select_flights_holds:
  assumes "r \<in> set (select_flights d cond)"
    and "\<And>f x. x \<in> set (join_airline (airlines d) f) \<Longrightarrow> cond x = cond f"
  shows "cond r"
proof -
  from assms(1) obtain f where "f \<in> set (flights d)" "cond f" "r \<in> set (join_airline (airlines d) f)"
    by (auto simp: select_flights_set)
  with assms(2) show ?thesis by simp
qed

lemma join_rows_filter:
  assumes inv: "\<And>f x. x \<in> set (join_airline als f) \<Longrightarrow> W x = W f"
  shows "concat (map (join_airline als) (filter (\<lambda>f. Q f \<and> W f) fs)) =
         filter W (concat (map (join_airline als) (filter Q fs)))"
proof (induction fs)
  case Nil
  then show ?case by simp
next
  case (Cons f fs)
  have yes: "W f \<Longrightarrow> filter W (join_airline als f) = join_airline als f"
    using inv by (simp add: filter_id_conv)
  have no: "\<not> W f \<Longrightarrow> filter W (join_airline als f) = []"
    using inv by (simp add: filter_empty_conv)
  from Cons yes no show ?case by (cases "W f") simp_all
qed

lemma select_flights_conj:
  assumes "\<And>f x. x \<in> set (join_airline (airlines d) f) \<Longrightarrow> W x = W f"
  shows "select_flights d (\<lambda>f. Q f \<and> W f) = filter W (select_flights d Q)"
  unfolding select_flights_def
  by (simp add: join_rows_filter [of "airlines d" W, OF assms] filter_sort)

lemma filter_take_sorted:
  assumes "sorted (map k xs)" and "\<And>x y. k x \<le> k y \<Longrightarrow> P y \<Longrightarrow> P x"
  shows "filter P (take n xs) = take n (filter P xs)"
  using assms(1)
proof (induction xs arbitrary: n)
  case Nil
  then show ?case by simp
next
  case (Cons x xs)
  show ?case
  proof (cases n)
    case 0
    then show ?thesis by simp
  next
    case (Suc m)
    from Cons.prems have s: "sorted (map k xs)" and le: "\<forall>y \<in> set xs. k x \<le> k y"
      by simp_all
    show ?thesis
    proof (cases "P x")
      case True
      with Suc Cons.IH [OF s] show ?thesis by simp
    next
      case False
      with le assms(2) have "\<forall>y \<in> set xs. \<not> P y" by blast
      then have "filter P xs = []" "filter P (take m xs) = []"
        by (auto simp: filter_empty_conv dest: in_set_takeD)
      with False Suc show ?thesis by simp
    qed
  qed
qed

lemma take_sorted_least:
  assumes "sorted (map k xs)" and "x \<in> set xs" and "x \<notin> set (take n xs)"
    and "y \<in> set (take n xs)"
  shows "k y \<le> k x"
proof -
  from assms(2,3) have "x \<in> set (drop n xs)"
    by (metis Un_iff append_take_drop_id set_append)
  moreover have "sorted (map k (take n xs) @ map k (drop n xs))"
    using assms(1) by (simp flip: map_append)
  ultimately show ?thesis
    using assms(4) by (auto simp: sorted_append)
qed

text \<open>The query of the loop body and the later test of the window, taken together.\<close>

lemma routesFor_earliest:
  "routesFor d dest f =
     map (\<lambda>s. \<lparr>first_flight = f, second_flight = s\<rparr>) (earliest_second_legs d dest f)"
proof -
  let ?Q = "\<lambda>s. flight.origin s = flight.destination f \<and> flight.destination s = dest \<and>
      (DATE (departure_datetime s) = DATE (arrival_datetime f) \<or>
       DATE (departure_datetime s) = DATE (arrival_datetime f + 24 * 60 * 60 * 1000)) \<and>
      departure_datetime s \<ge> arrival_datetime f + minimumConnectionTime"
  let ?W = "\<lambda>s. connectionTime f s \<ge> minimumConnectionTime \<and>
      connectionTime f s \<le> 24 * 60 * 60 * 1000"
  let ?P = "\<lambda>s. departure_datetime s \<le> arrival_datetime f + 24 * 60 * 60 * 1000"
  let ?xs = "select_flights d ?Q"
  have Qinv: "\<And>g x. x \<in> set (join_airline (airlines d) g) \<Longrightarrow> ?Q x = ?Q g"
    by (simp add: join_airline_fields)
  have Pinv: "\<And>g x. x \<in> set (join_airline (airlines d) g) \<Longrightarrow> ?P x = ?P g"
    by (simp add: join_airline_fields)
  have rows: "?Q x" if "x \<in> set ?xs" for x
    using that Qinv by (rule select_flights_holds)
  have ge: "departure_datetime x \<ge> arrival_datetime f + minimumConnectionTime"
    if "x \<in> set ?xs" for x
    using rows [OF that] by blast
  have WP: "filter ?W ys = filter ?P ys" if sub: "set ys \<subseteq> set ?xs" for ys
  proof (rule filter_cong [OF refl])
    fix x assume "x \<in> set ys"
    with sub have "x \<in> set ?xs" by blast
    from ge [OF this] show "?W x = ?P x"
      unfolding connectionTime_def by linarith
  qed
  have "filter ?W (take 5 ?xs) = filter ?P (take 5 ?xs)"
    by (rule WP) (rule set_take_subset)
  also have "\<dots> = take 5 (filter ?P ?xs)"
    by (rule filter_take_sorted [where k = departure_datetime])
      (simp_all add: select_flights_sorted)
  also have "filter ?P ?xs = select_flights d (\<lambda>s. ?Q s \<and> ?P s)"
    by (rule select_flights_conj [symmetric]) (rule Pinv)
  also have "(\<lambda>s. ?Q s \<and> ?P s) = second_leg dest f"
    by (auto simp: second_leg_def DATE_next_day minimumConnectionTime_def fun_eq_iff)
  finally have "filter ?W (take 5 ?xs) = earliest_second_legs d dest f"
    by (simp add: earliest_second_legs_def)
  then show ?thesis
    by (simp add: routesFor_def secondLegFlights_def Let_def)
qed

lemma findTransitRoutes_refines:
  "findTransitRoutes d orig dest date = transit_search d orig dest date"
proof -
  have "firstLegFlights d orig dest date = select_flights d (first_leg orig dest date)"
    by (simp add: firstLegFlights_def first_leg_def [abs_def])
  moreover have "routesFor d dest =
      (\<lambda>f. map (\<lambda>s. \<lparr>first_flight = f, second_flight = s\<rparr>) (earliest_second_legs d dest f))"
    by (simp add: fun_eq_iff routesFor_earliest)
  ultimately show ?thesis
    by (simp add: findTransitRoutes_def transit_search_def transit_candidates_def Let_def)
qed

lemma transit_candidates_legs:
  assumes "r \<in> set (transit_candidates d orig dest date)"
  shows "first_leg orig dest date (first_flight r) \<and>
         second_leg dest (first_flight r) (second_flight r) \<and>
         second_flight r \<in> set (earliest_second_legs d dest (first_flight r))"
proof -
  from assms obtain f s where f: "f \<in> set (select_flights d (first_leg orig dest date))"
    and s: "s \<in> set (earliest_second_legs d dest f)"
    and r: "r = \<lparr>first_flight = f, second_flight = s\<rparr>"
    by (auto simp: transit_candidates_def)
  from f have "first_leg orig dest date f"
    by (rule select_flights_holds) (rule first_leg_row)
  moreover from s have "s \<in> set (select_flights d (second_leg dest f))"
    by (auto simp: earliest_second_legs_def dest: in_set_takeD)
  then have "second_leg dest f s"
    by (rule select_flights_holds) (rule second_leg_row)
  ultimately show ?thesis using r s by simp
qed
text \<open>
  Claim C3, as the code has it. \<open>findTransitRoutes\<close> is the transit search of the
  specification: it pairs every first leg (a flight of the store joined with its
  airline that departs the origin on the search date for a hub other than the
  destination) with the five earliest of its second legs (from the hub to the
  destination, departing on the day of the first leg's arrival or the day after, and
  between 2 and 24 hours after it), sorts all pairs by total time from first departure
  to second arrival, and keeps the first ten. So every route returned consists of a
  first leg and one of its second legs; for each first leg at most five second legs are
  retrieved, in order of departure, and no second leg left out departs before one that
  is retrieved; the result is sorted by total time, has at most ten routes, and no pair
  left out has a shorter total time than a route returned. The cap of five is per first
  leg, not per hub: see the counterexample below.
\<close>

theorem findTransitRoutes_spec:
  "findTransitRoutes d orig dest date = transit_search d orig dest date \<and>
   (\<forall>r \<in> set (findTransitRoutes d orig dest date).
      first_leg orig dest date (first_flight r) \<and>
      second_leg dest (first_flight r) (second_flight r) \<and>
      second_flight r \<in> set (earliest_second_legs d dest (first_flight r))) \<and>
   (\<forall>f. length (earliest_second_legs d dest f) \<le> 5 \<and>
      sorted (map departure_datetime (earliest_second_legs d dest f)) \<and>
      (\<forall>s \<in> set (select_flights d (second_leg dest f)).
         s \<notin> set (earliest_second_legs d dest f) \<longrightarrow>
         (\<forall>s' \<in> set (earliest_second_legs d dest f).
            departure_datetime s' \<le> departure_datetime s))) \<and>
   sorted (map totalTime (findTransitRoutes d orig dest date)) \<and>
   length (findTransitRoutes d orig dest date) \<le> 10 \<and>
   (\<forall>r \<in> set (transit_candidates d orig dest date).
      r \<notin> set (findTransitRoutes d orig dest date) \<longrightarrow>
      (\<forall>r' \<in> set (findTransitRoutes d orig dest date). totalTime r' \<le> totalTime r))"
proof (intro conjI ballI allI impI)
  let ?cs = "transit_candidates d orig dest date"
  let ?res = "findTransitRoutes d orig dest date"
  show eq: "?res = transit_search d orig dest date"
    by (rule findTransitRoutes_refines)
  have res: "?res = take 10 (sort_key totalTime ?cs)"
    by (simp add: eq transit_search_def)
  have sub: "\<And>r. r \<in> set ?res \<Longrightarrow> r \<in> set ?cs"
    unfolding res by (auto dest: in_set_takeD)
  show "sorted (map totalTime ?res)"
    unfolding res by (simp add: sorted_wrt_take flip: take_map)
  show "length ?res \<le> 10"
    unfolding res by simp
  {
    fix r assume "r \<in> set ?res"
    then have "r \<in> set ?cs" by (rule sub)
    from transit_candidates_legs [OF this]
    show "first_leg orig dest date (first_flight r)"
      and "second_leg dest (first_flight r) (second_flight r)"
      and "second_flight r \<in> set (earliest_second_legs d dest (first_flight r))"
      by simp_all
  }
  {
    fix f
    show "length (earliest_second_legs d dest f) \<le> 5"
      by (simp add: earliest_second_legs_def)
    show "sorted (map departure_datetime (earliest_second_legs d dest f))"
      unfolding earliest_second_legs_def
      using select_flights_sorted [of d "second_leg dest f"]
      by (simp add: sorted_wrt_take flip: take_map)
    fix s s'
    assume "s \<in> set (select_flights d (second_leg dest f))"
      and "s \<notin> set (earliest_second_legs d dest f)"
      and "s' \<in> set (earliest_second_legs d dest f)"
    then show "departure_datetime s' \<le> departure_datetime s"
      unfolding earliest_second_legs_def
      using take_sorted_least [OF select_flights_sorted [of d "second_leg dest f"], of s 5 s']
      by simp
  }
  {
    fix r r'
    assume "r \<in> set ?cs" and "r \<notin> set ?res" and "r' \<in> set ?res"
    then show "totalTime r' \<le> totalTime r"
      unfolding res
      using take_sorted_least [of totalTime "sort_key totalTime ?cs" r 10 r']
      by simp
  }
qed

lemmas db0_rows = db0_def AI101_def AI202_def AI303_def

text \<open>
  The example of the specification: AI101 and AI202 connect in 150 minutes and make the
  one transit route from DEL to BLR; AI303, 90 minutes after the arrival, is no second
  leg.
\<close>

theorem findTransitRoutes_spec_witness:
  "hubs (findTransitRoutes db0 ''DEL'' ''BLR'' 0) = [''BOM''] \<and>
   second_ids (findTransitRoutes db0 ''DEL'' ''BLR'' 0) = [2] \<and>
   first_leg ''DEL'' ''BLR'' 0 AI101 \<and> second_leg ''BLR'' AI101 AI202 \<and>
   \<not> second_leg ''BLR'' AI101 AI303 \<and> connectionTime AI101 AI202 = 150 * 60 * 1000 \<and>
   list_all (\<lambda>r. second_leg ''BLR'' (first_flight r) (second_flight r))
     (findTransitRoutes db0 ''DEL'' ''BLR'' 0) \<and>
   findTransitRoutes db0 ''DEL'' ''BLR'' 0 = transit_search db0 ''DEL'' ''BLR'' 0"
proof -
  have e: "hubs (findTransitRoutes db0 ''DEL'' ''BLR'' 0) = [''BOM'']"
    "second_ids (findTransitRoutes db0 ''DEL'' ''BLR'' 0) = [2]"
    by code_simp+
  have l: "first_leg ''DEL'' ''BLR'' 0 AI101" "second_leg ''BLR'' AI101 AI202"
    "\<not> second_leg ''BLR'' AI101 AI303" "connectionTime AI101 AI202 = 150 * 60 * 1000"
    by (simp_all add: first_leg_def second_leg_def connectionTime_def DATE_def db0_rows)
  from findTransitRoutes_spec [of db0 "''DEL''" "''BLR''" 0]
  have "list_all (\<lambda>r. second_leg ''BLR'' (first_flight r) (second_flight r))
      (findTransitRoutes db0 ''DEL'' ''BLR'' 0)"
    and "findTransitRoutes db0 ''DEL'' ''BLR'' 0 = transit_search db0 ''DEL'' ''BLR'' 0"
    unfolding list_all_iff by blast+
  with e l show ?thesis by simp
qed

text \<open>
  Claim C3 as it is stated caps the second legs at five per hub. Both flights from DEL
  arrive at the hub BOM, each gets its own five earliest second legs, and the routes
  returned go through BOM on six different second legs.
\<close>

theorem findTransitRoutes_hub_counterexample:
  "hubs (findTransitRoutes db_hub ''DEL'' ''BLR'' 0) =
     [''BOM'', ''BOM'', ''BOM'', ''BOM'', ''BOM'', ''BOM''] \<and>
   second_ids (findTransitRoutes db_hub ''DEL'' ''BLR'' 0) = [11, 16, 12, 13, 14, 15] \<and>
   length (remdups (second_ids (findTransitRoutes db_hub ''DEL'' ''BLR'' 0))) = 6 \<and>
   \<not> length (remdups (second_ids (findTransitRoutes db_hub ''DEL'' ''BLR'' 0))) \<le> 5"
  by code_simp

end
